theory Spec2Isabelle
  imports Main "HOL-Library.Multiset"
begin

section \<open>Regular expressions, as far as \<open>validate_email\<close> uses them\<close>

text \<open>
  \<open>validate_email\<close> compiles one pattern and calls \<open>match\<close> on it. The pattern is embedded
  as a value of \<open>rexp\<close>; a character class is a predicate on characters. Matching is by
  derivatives: \<open>accepts r s\<close> holds exactly when the whole of \<open>s\<close> is a word of \<open>r\<close>.
\<close>

datatype rexp = Zero | One | Atom "char \<Rightarrow> bool" | Alt rexp rexp | Seq rexp rexp | Star rexp

fun nullable :: "rexp \<Rightarrow> bool" where
  "nullable Zero = False"
| "nullable One = True"
| "nullable (Atom P) = False"
| "nullable (Alt r s) = (nullable r \<or> nullable s)"
| "nullable (Seq r s) = (nullable r \<and> nullable s)"
| "nullable (Star r) = True"

fun deriv :: "char \<Rightarrow> rexp \<Rightarrow> rexp" where
  "deriv c Zero = Zero"
| "deriv c One = Zero"
| "deriv c (Atom P) = (if P c then One else Zero)"
| "deriv c (Alt r s) = Alt (deriv c r) (deriv c s)"
| "deriv c (Seq r s) =
     (if nullable r then Alt (Seq (deriv c r) s) (deriv c s) else Seq (deriv c r) s)"
| "deriv c (Star r) = Seq (deriv c r) (Star r)"

fun accepts :: "rexp \<Rightarrow> string \<Rightarrow> bool" where
  "accepts r [] = nullable r"
| "accepts r (c # cs) = accepts (deriv c r) cs"

text \<open>\<open>r+\<close> and \<open>r{2,}\<close>.\<close>

definition Plus :: "rexp \<Rightarrow> rexp" where
  "Plus r = Seq r (Star r)"

definition AtLeast2 :: "rexp \<Rightarrow> rexp" where
  "AtLeast2 r = Seq r (Plus r)"

definition in_range :: "char \<Rightarrow> char \<Rightarrow> char \<Rightarrow> bool" where
  "in_range lo hi c = ((of_char lo :: nat) \<le> of_char c \<and> (of_char c :: nat) \<le> of_char hi)"

definition alpha :: "char \<Rightarrow> bool" where
  "alpha c = (in_range CHR ''a'' CHR ''z'' c \<or> in_range CHR ''A'' CHR ''Z'' c)"

definition digit :: "char \<Rightarrow> bool" where
  "digit c = in_range CHR ''0'' CHR ''9'' c"

text \<open>\<open>[a-zA-Z0-9._%+-]\<close> and \<open>[a-zA-Z0-9.-]\<close>.\<close>

definition local_class :: "char \<Rightarrow> bool" where
  "local_class c = (alpha c \<or> digit c \<or> c \<in> set ''._%+-'')"

definition domain_class :: "char \<Rightarrow> bool" where
  "domain_class c = (alpha c \<or> digit c \<or> c \<in> set ''.-'')"

definition is_char :: "char \<Rightarrow> char \<Rightarrow> bool" where
  "is_char a c = (c = a)"

text \<open>
  The pattern of the source between its anchors:
  \<^verbatim>\<open>[a-zA-Z0-9._%+-]+@[a-zA-Z0-9.-]+\.[a-zA-Z]{2,}\<close>
\<close>

definition email_regex :: rexp where
  "email_regex =
     Seq (Plus (Atom local_class))
    (Seq (Atom (is_char CHR ''@''))
    (Seq (Plus (Atom domain_class))
    (Seq (Atom (is_char CHR ''.''))
         (AtLeast2 (Atom alpha)))))"

definition newline :: char where
  "newline = CHR 0x0A"

text \<open>
  \<^verbatim>\<open>re.compile(r"^...$").match(email)\<close>: \<open>match\<close> starts at the first character, and
  Python's \<open>$\<close> (without \<open>re.MULTILINE\<close>) matches at the end of the string and also just
  before a newline that is the last character of the string. So the match succeeds when the
  whole string is a word of the pattern, or when it is such a word followed by one newline.
\<close>

definition re_match :: "rexp \<Rightarrow> string \<Rightarrow> bool" where
  "re_match r s = (accepts r s \<or> (s \<noteq> [] \<and> last s = newline \<and> accepts r (butlast s)))"

section \<open>Exceptions\<close>

datatype value_error =
    TooManyRecipients int   \<comment> \<open>\<^verbatim>\<open>ValueError(f"Too many recipients (max {MAX_RECIPIENTS})")\<close>\<close>
  | RangeStepZero           \<comment> \<open>\<^verbatim>\<open>range(0, n, 0)\<close>\<close>
  | MaxWorkers              \<comment> \<open>\<^verbatim>\<open>ThreadPoolExecutor(max_workers=n)\<close> with \<open>n \<le> 0\<close>\<close>
  | NotInList               \<comment> \<open>\<^verbatim>\<open>list.remove(x)\<close> with \<open>x\<close> not in the list\<close>
  | NegativeSleep           \<comment> \<open>\<^verbatim>\<open>time.sleep(d)\<close> with \<open>d < 0\<close>\<close>

text \<open>
  Every exception of the model is an instance of Python's \<open>Exception\<close>, so that
  \<^verbatim>\<open>except Exception\<close> catches each of them. \<open>External\<close> is an exception raised by a
  collaborator (template renderer, mail transport, file system), with its text.
\<close>

datatype exn =
    ValueError value_error
  | KeyError string
  | IndexError
  | External string

section \<open>The recipient validator\<close>

text \<open>\<^verbatim>\<open>email.split("@")\<close>: never empty.\<close>

fun split_on :: "char \<Rightarrow> string \<Rightarrow> string list" where
  "split_on sep [] = [[]]"
| "split_on sep (c # cs) =
     (if c = sep then [] # split_on sep cs
      else (case split_on sep cs of [] \<Rightarrow> [[c]] | p # ps \<Rightarrow> (c # p) # ps))"

text \<open>\<^verbatim>\<open>xs[0]\<close>, which raises on an empty list.\<close>

definition first :: "'a list \<Rightarrow> exn + 'a" where
  "first xs = (case xs of [] \<Rightarrow> Inl IndexError | x # _ \<Rightarrow> Inr x)"

text \<open>
  The expression inside \<^verbatim>\<open>try\<close>. Python's \<open>and\<close> evaluates its right operand only when the
  left one is true, so the lengths are looked at only for a string the pattern matched.
\<close>

definition validate_email_try :: "string \<Rightarrow> exn + bool" where
  "validate_email_try email =
     (if \<not> re_match email_regex email then Inr False
      else if \<not> length email \<le> 254 then Inr False
      else (case first (split_on CHR ''@'' email) of
              Inl e \<Rightarrow> Inl e
            | Inr local_part \<Rightarrow> Inr (length local_part \<le> 64)))"

definition validate_email :: "string \<Rightarrow> bool" where
  "validate_email email =
     (if email = [] then False
      else (case validate_email_try email of Inl e \<Rightarrow> False | Inr b \<Rightarrow> b))"

text \<open>
  What the specification asks of a recipient address: non-empty, a word of the pattern (the
  grammar \<open>local-part "@" domain "." tld\<close>), of length at most 254, with at most 64 characters
  before the first \<open>@\<close>.
\<close>

definition spec_valid_address :: "string \<Rightarrow> bool" where
  "spec_valid_address s =
     (s \<noteq> [] \<and> accepts email_regex s \<and> length s \<le> 254
      \<and> length (takeWhile (\<lambda>c. c \<noteq> CHR ''@'') s) \<le> 64)"

section \<open>Configuration, messages, events\<close>

text \<open>
  \<open>EmailConfig\<close> reads its values from \<open>waanverse_mailer.config.settings.email_config\<close> and
  from Django's settings; both are outside this repository's sources, so every value is a
  field of the configuration and the results below hold for each choice of them.
\<close>

record config =
  BATCH_SIZE :: int
  RETRY_ATTEMPTS :: int
  RETRY_DELAY :: int
  MAX_RECIPIENTS :: int
  THREAD_POOL_SIZE :: int
  TIMEOUT :: int
  email_threading_enabled :: bool
  platform_name :: string
  platform_address :: string
  platform_contact_email :: string
  unsubscribe_link :: string
  DEFAULT_FROM_EMAIL :: string

text \<open>A template context: a dictionary, in insertion order.\<close>

type_synonym template_context = "(string \<times> string) list"

fun dict_set :: "string \<Rightarrow> string \<Rightarrow> template_context \<Rightarrow> template_context" where
  "dict_set k v [] = [(k, v)]"
| "dict_set k v (p # ps) = (if fst p = k then (k, v) # ps else p # dict_set k v ps)"

text \<open>\<^verbatim>\<open>context.update({...})\<close>, key by key.\<close>

definition dict_update :: "(string \<times> string) list \<Rightarrow> template_context \<Rightarrow> template_context" where
  "dict_update kvs d = fold (\<lambda>(k, v). dict_set k v) kvs d"

text \<open>An \<open>EmailMultiAlternatives\<close>, by what the service puts into it.\<close>

record email_message =
  msg_subject :: string
  msg_body :: string
  msg_from_email :: string
  msg_to :: "string list"
  msg_connection :: nat
  msg_alternatives :: "(string \<times> string) list"
  msg_attachments :: "string list"
  msg_extra_headers :: "(string \<times> string) list"

text \<open>
  An entry of the list that \<open>send_batch_emails\<close> returns and \<open>retry_failed_emails\<close> reads: a
  dictionary, by the five keys the code writes or looks up; \<open>None\<close> is an absent key.
\<close>

record failed_record =
  fr_recipient :: "string option"
  fr_error :: "string option"
  fr_subject :: "string option"
  fr_template_name :: "string option"
  fr_context :: "template_context option"

text \<open>The log calls of the service, one constructor for each, with the interpolated values.\<close>

datatype log_entry =
    ConnectionFailed exn                  \<comment> \<open>\<^verbatim>\<open>Email connection failed: {e}\<close>\<close>
  | UnexpectedError string exn            \<comment> \<open>\<^verbatim>\<open>Unexpected error sending to {recipient}: {e}\<close>\<close>
  | UnknownType string                    \<comment> \<open>\<^verbatim>\<open>Unknown transactional email type: {event_type}\<close>\<close>
  | TransactionalFailed exn               \<comment> \<open>\<^verbatim>\<open>Transactional email failed: {e}\<close>\<close>
  | SentTo nat string                     \<comment> \<open>\<^verbatim>\<open>Email sent successfully to {n} recipients: {subject}\<close>\<close>
  | SendFailed exn string string nat      \<comment> \<open>\<^verbatim>\<open>Failed to send email: {e}\<close>, with subject, template, recipients\<close>
  | BatchFailed "string list" exn         \<comment> \<open>\<^verbatim>\<open>Batch email sending failed for {batch}: {e}\<close>\<close>
  | RetrySent string                      \<comment> \<open>\<^verbatim>\<open>Retried email sent successfully to {recipient}\<close>\<close>
  | RetryFailed nat int string exn        \<comment> \<open>\<^verbatim>\<open>Retry {attempt}/{retries} failed for {recipient}: {e}\<close>\<close>

text \<open>
  What a call does besides returning: the calls to the collaborators and to the logger, in
  the order the calling thread makes them.
\<close>

datatype event =
    GetConnection                         \<comment> \<open>\<^verbatim>\<open>get_connection(...)\<close>: the transport connection is established\<close>
  | Render string                         \<comment> \<open>\<^verbatim>\<open>render_to_string(template_path, context)\<close>\<close>
  | Build "string list"                   \<comment> \<open>\<^verbatim>\<open>EmailMultiAlternatives(..., to=recipient_list, ...)\<close>\<close>
  | AttachFile string                     \<comment> \<open>\<^verbatim>\<open>msg.attach_file(attachment)\<close>\<close>
  | MessageSend email_message             \<comment> \<open>\<^verbatim>\<open>email_message.send()\<close>\<close>
  | SendMessages nat "email_message list" \<comment> \<open>\<^verbatim>\<open>with connection: connection.send_messages(messages)\<close>\<close>
  | ThreadStart "email_message list"      \<comment> \<open>\<^verbatim>\<open>EmailThread(self, [email_message]).start()\<close>\<close>
  | Submit string                         \<comment> \<open>\<^verbatim>\<open>executor.submit(self.send_email, ..., [recipient], ...)\<close>\<close>
  | Sleep int                             \<comment> \<open>\<^verbatim>\<open>time.sleep(delay)\<close>\<close>
  | LogError log_entry
  | LogInfo log_entry

text \<open>
  The collaborators. Each may answer differently from one call to the next, so each is a
  function of the events so far. \<open>Inl\<close> (or \<open>Some\<close>) is the exception the call raises.
\<close>

record env =
  get_connection :: "event list \<Rightarrow> exn + nat"
  render_to_string :: "event list \<Rightarrow> string \<Rightarrow> template_context \<Rightarrow> exn + string"
  strip_tags :: "string \<Rightarrow> string"
  attach_file :: "event list \<Rightarrow> string \<Rightarrow> exn option"
  message_send :: "event list \<Rightarrow> email_message \<Rightarrow> exn + nat"
  send_messages :: "event list \<Rightarrow> nat \<Rightarrow> email_message list \<Rightarrow> exn option"

text \<open>The service instance (\<open>self._connection\<close>) together with the events so far.\<close>

record world =
  conn :: "nat option"
  trace :: "event list"

definition init_world :: world where
  "init_world = \<lparr>conn = None, trace = []\<rparr>"

definition emit :: "event \<Rightarrow> world \<Rightarrow> world" where
  "emit e w = w\<lparr>trace := trace w @ [e]\<rparr>"

section \<open>Connection manager\<close>

definition connection :: "env \<Rightarrow> world \<Rightarrow> (exn + nat) \<times> world" where
  "connection E w =
     (case conn w of
        Some c \<Rightarrow> (Inr c, w)
      | None \<Rightarrow>
          (let w1 = emit GetConnection w in
           case get_connection E (trace w) of
             Inr c \<Rightarrow> (Inr c, w1\<lparr>conn := Some c\<rparr>)
           | Inl e \<Rightarrow> (Inl e, emit (LogError (ConnectionFailed e)) w1)))"

section \<open>Message builder\<close>

fun attach_files :: "env \<Rightarrow> string list \<Rightarrow> email_message \<Rightarrow> world \<Rightarrow> (exn + email_message) \<times> world" where
  "attach_files E [] msg w = (Inr msg, w)"
| "attach_files E (a # as) msg w =
     (let w1 = emit (AttachFile a) w in
      case attach_file E (trace w) a of
        Some e \<Rightarrow> (Inl e, w1)
      | None \<Rightarrow> attach_files E as (msg\<lparr>msg_attachments := msg_attachments msg @ [a]\<rparr>) w1)"

text \<open>\<open>Union[str, List[str]]\<close>: \<open>Inl\<close> is a single string.\<close>

definition as_list :: "string + string list \<Rightarrow> string list" where
  "as_list recipient_list = (case recipient_list of Inl s \<Rightarrow> [s] | Inr l \<Rightarrow> l)"

text \<open>
  The builder updates the caller's context dictionary in place. The update is idempotent and
  nothing else reads the dictionary, so the model does not hand the updated dictionary back.
\<close>

definition prepare_email_message ::
  "env \<Rightarrow> config \<Rightarrow> string \<Rightarrow> string \<Rightarrow> template_context \<Rightarrow> string + string list \<Rightarrow> string
   \<Rightarrow> string list option \<Rightarrow> world \<Rightarrow> (exn + email_message) \<times> world" where
  "prepare_email_message E cfg subject template_name context recipient_list priority attachments w =
     (let template_path = ''emails/'' @ template_name @ ''.html'';
          context1 = dict_update
            [(''site_name'', platform_name cfg),
             (''company_address'', platform_address cfg),
             (''support_email'', platform_contact_email cfg),
             (''unsubscribe_link'', unsubscribe_link cfg)] context;
          w1 = emit (Render template_path) w
      in case render_to_string E (trace w) template_path context1 of
           Inl e \<Rightarrow> (Inl e, w1)
         | Inr html_content \<Rightarrow>
             (let plain_content = strip_tags E html_content;
                  recipients = as_list recipient_list
              in case connection E w1 of
                   (Inl e, w2) \<Rightarrow> (Inl e, w2)
                 | (Inr c, w2) \<Rightarrow>
                     (let msg = \<lparr>msg_subject = subject, msg_body = plain_content,
                                 msg_from_email = DEFAULT_FROM_EMAIL cfg, msg_to = recipients,
                                 msg_connection = c,
                                 msg_alternatives = [(html_content, ''text/html'')],
                                 msg_attachments = [], msg_extra_headers = []\<rparr>;
                          w3 = emit (Build recipients) w2
                      in case attach_files E (case attachments of None \<Rightarrow> [] | Some as \<Rightarrow> as) msg w3 of
                           (Inl e, w4) \<Rightarrow> (Inl e, w4)
                         | (Inr msg1, w4) \<Rightarrow>
                             (Inr (if priority = ''high''
                                   then msg1\<lparr>msg_extra_headers := [(''X-Priority'', ''1'')]\<rparr>
                                   else msg1), w4))))"

section \<open>Single send\<close>

text \<open>
  The body of \<^verbatim>\<open>try\<close> in \<open>send_email\<close>. Starting the thread returns at once; what the thread
  does (it sends over the service's connection and logs a failure) happens on that thread.
\<close>

definition send_email_try ::
  "env \<Rightarrow> config \<Rightarrow> string \<Rightarrow> string \<Rightarrow> template_context \<Rightarrow> string list \<Rightarrow> string
   \<Rightarrow> string list option \<Rightarrow> bool \<Rightarrow> world \<Rightarrow> (exn + bool) \<times> world" where
  "send_email_try E cfg subject template_name context recipients priority attachments async_send w =
     (if int (length recipients) > MAX_RECIPIENTS cfg
      then (Inl (ValueError (TooManyRecipients (MAX_RECIPIENTS cfg))), w)
      else (case prepare_email_message E cfg subject template_name context (Inr recipients)
                   priority attachments w of
              (Inl e, w1) \<Rightarrow> (Inl e, w1)
            | (Inr email_message, w1) \<Rightarrow>
                (if async_send \<and> email_threading_enabled cfg
                 then (Inr True,
                       emit (LogInfo (SentTo (length recipients) subject))
                         (emit (ThreadStart [email_message]) w1))
                 else (let w2 = emit (MessageSend email_message) w1 in
                       case message_send E (trace w1) email_message of
                         Inl e \<Rightarrow> (Inl e, w2)
                       | Inr n \<Rightarrow>
                           (Inr True, emit (LogInfo (SentTo (length recipients) subject)) w2)))))"

text \<open>
  \<open>send_email\<close> with all seven parameters. Its result type has room for an exception that
  reaches the caller, so that whether one does is a statement about the function.
\<close>

definition send_email ::
  "env \<Rightarrow> config \<Rightarrow> string \<Rightarrow> string \<Rightarrow> template_context \<Rightarrow> string + string list \<Rightarrow> string
   \<Rightarrow> string list option \<Rightarrow> bool \<Rightarrow> world \<Rightarrow> (exn + bool) \<times> world" where
  "send_email E cfg subject template_name context recipient_list priority attachments async_send w =
     (let recipients = as_list recipient_list in
      case send_email_try E cfg subject template_name context recipients priority attachments
             async_send w of
        (Inr b, w1) \<Rightarrow> (Inr b, w1)
      | (Inl e, w1) \<Rightarrow>
          (Inr False,
           emit (LogError (SendFailed e subject template_name (length recipients))) w1))"

text \<open>The defaults of \<open>send_email\<close>'s optional parameters.\<close>

definition default_priority :: string where
  "default_priority = ''medium''"

definition default_attachments :: "string list option" where
  "default_attachments = None"

definition default_async_send :: bool where
  "default_async_send = True"

section \<open>Parallel send\<close>

record results =
  total_recipients :: nat
  valid_recipients :: nat
  successful_sends :: nat
  failed_sends :: nat
  failed_recipients :: "string list"

text \<open>
  \<^verbatim>\<open>as_completed\<close> yields the futures in the order in which they finish, which the program
  does not decide. The order is a parameter: the schedule says, at each step, which of the
  futures still running finishes next. Every order of completion is the result of a schedule.
\<close>

function as_completed :: "nat list \<Rightarrow> 'a list \<Rightarrow> 'a list" where
  "as_completed sched xs =
     (if xs = [] then []
      else (case sched of
              [] \<Rightarrow> xs
            | k # ks \<Rightarrow>
                (let i = k mod length xs
                 in xs ! i # as_completed ks (take i xs @ drop (Suc i) xs))))"
  by pat_completeness auto
termination
proof (relation "measure (\<lambda>(sched, xs). length xs)", goal_cases)
  case 1
  show ?case by simp
next
  case (2 sched xs k ks i)
  from 2(1) have "k mod length xs < length xs" by simp
  then have "k mod length xs + (length xs - Suc (k mod length xs)) < length xs" by arith
  with 2 show ?case by simp
qed

declare as_completed.simps [simp del]

text \<open>
  The body of the loop over the completed futures, together with the task whose result it
  reads. The tasks run \<open>send_email\<close> on the threads of the pool, on the service they share.
  The model runs each task as one step at the moment it finishes, so the tasks take effect
  on the service (its connection, its log) in the order of completion; two tasks
  interleaved inside \<open>send_email\<close> are not modelled. \<open>submit\<close> names six arguments of
  \<open>send_email\<close>, so \<open>async_send\<close> is the default.
\<close>

definition collect ::
  "env \<Rightarrow> config \<Rightarrow> string \<Rightarrow> string \<Rightarrow> template_context \<Rightarrow> string \<Rightarrow> string list option
   \<Rightarrow> string \<Rightarrow> results \<times> world \<Rightarrow> results \<times> world" where
  "collect E cfg subject template_name context priority attachments recipient rw =
     (case rw of (res, w) \<Rightarrow>
        (case send_email E cfg subject template_name context (Inr [recipient]) priority
                attachments default_async_send w of
           (Inr result, w1) \<Rightarrow>
             (if result then (res\<lparr>successful_sends := successful_sends res + 1\<rparr>, w1)
              else (res\<lparr>failed_sends := failed_sends res + 1,
                        failed_recipients := failed_recipients res @ [recipient]\<rparr>, w1))
         | (Inl e, w1) \<Rightarrow>
             (res\<lparr>failed_sends := failed_sends res + 1,
                  failed_recipients := failed_recipients res @ [recipient]\<rparr>,
              emit (LogError (UnexpectedError recipient e)) w1)))"

definition parallel_email_send ::
  "env \<Rightarrow> config \<Rightarrow> nat list \<Rightarrow> string \<Rightarrow> string \<Rightarrow> template_context \<Rightarrow> string list \<Rightarrow> string
   \<Rightarrow> string list option \<Rightarrow> world \<Rightarrow> (exn + results) \<times> world" where
  "parallel_email_send E cfg sched subject template_name context recipient_list priority attachments w =
     (let valid = filter validate_email recipient_list;
          res = \<lparr>total_recipients = length recipient_list,
                 valid_recipients = length valid,
                 successful_sends = 0, failed_sends = 0, failed_recipients = []\<rparr>
      in if THREAD_POOL_SIZE cfg \<le> 0 then (Inl (ValueError MaxWorkers), w)
         else (let w1 = fold (\<lambda>recipient. emit (Submit recipient)) valid w
               in case fold (collect E cfg subject template_name context priority attachments)
                         (as_completed sched valid) (res, w1) of
                    (res1, w2) \<Rightarrow> (Inr res1, w2)))"

section \<open>Transactional dispatcher\<close>

definition templates :: "(string \<times> string) list" where
  "templates =
     [(''welcome'', ''welcome_email''),
      (''password_reset'', ''password_reset''),
      (''account_verification'', ''account_verification'')]"

text \<open>\<^verbatim>\<open>str.replace\<close> of one character by another, and \<^verbatim>\<open>str.title\<close> on ASCII text.\<close>

definition replace_char :: "char \<Rightarrow> char \<Rightarrow> string \<Rightarrow> string" where
  "replace_char a b s = map (\<lambda>c. if c = a then b else c) s"

definition ascii_lowercase :: string where
  "ascii_lowercase = ''abcdefghijklmnopqrstuvwxyz''"

definition ascii_uppercase :: string where
  "ascii_uppercase = ''ABCDEFGHIJKLMNOPQRSTUVWXYZ''"

definition upper :: "char \<Rightarrow> char" where
  "upper c = (case map_of (zip ascii_lowercase ascii_uppercase) c of Some u \<Rightarrow> u | None \<Rightarrow> c)"

definition lower :: "char \<Rightarrow> char" where
  "lower c = (case map_of (zip ascii_uppercase ascii_lowercase) c of Some l \<Rightarrow> l | None \<Rightarrow> c)"

fun title_from :: "bool \<Rightarrow> string \<Rightarrow> string" where
  "title_from prev [] = []"
| "title_from prev (c # cs) =
     (if alpha c then (if prev then lower c else upper c) # title_from True cs
      else c # title_from False cs)"

definition title :: "string \<Rightarrow> string" where
  "title s = title_from False s"

definition transactional_subject :: "string \<Rightarrow> string" where
  "transactional_subject event_type =
     ''Waanverse - '' @ title (replace_char CHR ''_'' CHR '' '' event_type)"

text \<open>
  The call of \<open>send_email\<close> names four arguments, so the other three are the defaults. The
  table holds no empty template name, but \<^verbatim>\<open>not template\<close> would send one the same way.
\<close>

definition send_transactional_email ::
  "env \<Rightarrow> config \<Rightarrow> string \<Rightarrow> string \<Rightarrow> template_context \<Rightarrow> world \<Rightarrow> bool \<times> world" where
  "send_transactional_email E cfg recipient event_type context w =
     (case map_of templates event_type of
        None \<Rightarrow> (False, emit (LogError (UnknownType event_type)) w)
      | Some template \<Rightarrow>
          (if template = [] then (False, emit (LogError (UnknownType event_type)) w)
           else (case send_email E cfg (transactional_subject event_type) template context
                        (Inl recipient) default_priority default_attachments default_async_send w of
                   (Inr b, w1) \<Rightarrow> (b, w1)
                 | (Inl e, w1) \<Rightarrow> (False, emit (LogError (TransactionalFailed e)) w1))))"

section \<open>Batch send\<close>

text \<open>\<^verbatim>\<open>str(n)\<close> for an integer, in decimal.\<close>

definition digit_chars :: string where
  "digit_chars = ''0123456789''"

function str_nat :: "nat \<Rightarrow> string" where
  "str_nat n =
     (if n < 10 then [digit_chars ! n]
      else str_nat (n div 10) @ [digit_chars ! (n mod 10)])"
  by pat_completeness auto
termination
  by (relation "measure id") auto

declare str_nat.simps [simp del]

definition str_int :: "int \<Rightarrow> string" where
  "str_int i = (if i < 0 then CHR ''-'' # str_nat (nat (- i)) else str_nat (nat i))"

text \<open>\<^verbatim>\<open>str(e)\<close>.\<close>

fun str_exn :: "exn \<Rightarrow> string" where
  "str_exn (ValueError (TooManyRecipients n)) = ''Too many recipients (max '' @ str_int n @ '')''"
| "str_exn (ValueError RangeStepZero) = ''range() arg 3 must not be zero''"
| "str_exn (ValueError MaxWorkers) = ''max_workers must be greater than 0''"
| "str_exn (ValueError NotInList) = ''list.remove(x): x not in list''"
| "str_exn (ValueError NegativeSleep) = ''sleep length must be non-negative''"
| "str_exn (KeyError k) = [CHR 0x27] @ k @ [CHR 0x27]"
| "str_exn IndexError = ''list index out of range''"
| "str_exn (External m) = m"

text \<open>\<^verbatim>\<open>{"recipient": recipient, "error": str(e)}\<close>\<close>

definition failed_entry :: "exn \<Rightarrow> string \<Rightarrow> failed_record" where
  "failed_entry e recipient =
     \<lparr>fr_recipient = Some recipient, fr_error = Some (str_exn e), fr_subject = None,
      fr_template_name = None, fr_context = None\<rparr>"

text \<open>The list comprehension that builds one message for each recipient of the batch.\<close>

fun prepare_all ::
  "env \<Rightarrow> config \<Rightarrow> string \<Rightarrow> string \<Rightarrow> template_context \<Rightarrow> string list \<Rightarrow> world
   \<Rightarrow> (exn + email_message list) \<times> world" where
  "prepare_all E cfg subject template_name context [] w = (Inr [], w)"
| "prepare_all E cfg subject template_name context (recipient # rest) w =
     (case prepare_email_message E cfg subject template_name context (Inr [recipient])
             default_priority default_attachments w of
        (Inl e, w1) \<Rightarrow> (Inl e, w1)
      | (Inr m, w1) \<Rightarrow>
          (case prepare_all E cfg subject template_name context rest w1 of
             (Inl e, w2) \<Rightarrow> (Inl e, w2)
           | (Inr ms, w2) \<Rightarrow> (Inr (m # ms), w2)))"

text \<open>
  \<^verbatim>\<open>with self.connection as connection: connection.send_messages(messages)\<close>: \<open>None\<close> when the
  block ends normally, \<open>Some e\<close> when it raises \<open>e\<close>.
\<close>

definition with_connection_send :: "env \<Rightarrow> email_message list \<Rightarrow> world \<Rightarrow> exn option \<times> world" where
  "with_connection_send E messages w =
     (case connection E w of
        (Inl e, w1) \<Rightarrow> (Some e, w1)
      | (Inr c, w1) \<Rightarrow> (send_messages E (trace w1) c messages, emit (SendMessages c messages) w1))"

text \<open>
  One iteration of the loop over the batches, on the counters and the list it updates. The
  messages are built before \<^verbatim>\<open>try\<close>, so an exception of the builder leaves the function.
\<close>

type_synonym batch_acc = "nat \<times> nat \<times> failed_record list"

definition account :: "string list \<Rightarrow> exn option \<Rightarrow> batch_acc \<Rightarrow> batch_acc" where
  "account batch outcome acc =
     (case acc of (success_count, failure_count, failed) \<Rightarrow>
        (case outcome of
           None \<Rightarrow> (success_count + length batch, failure_count, failed)
         | Some e \<Rightarrow>
             (success_count, failure_count + length batch, failed @ map (failed_entry e) batch)))"

definition send_batch ::
  "env \<Rightarrow> config \<Rightarrow> string \<Rightarrow> template_context \<Rightarrow> string \<Rightarrow> string list \<Rightarrow> batch_acc \<Rightarrow> world
   \<Rightarrow> (exn + batch_acc) \<times> world" where
  "send_batch E cfg template_name context subject batch acc w =
     (case prepare_all E cfg subject template_name context batch w of
        (Inl e, w1) \<Rightarrow> (Inl e, w1)
      | (Inr messages, w1) \<Rightarrow>
          (case with_connection_send E messages w1 of
             (None, w2) \<Rightarrow> (Inr (account batch None acc), w2)
           | (Some e, w2) \<Rightarrow>
               (Inr (account batch (Some e) acc), emit (LogError (BatchFailed batch e)) w2)))"

text \<open>
  \<^verbatim>\<open>for i in range(0, len(recipient_list), step)\<close> with \<open>step > 0\<close>, the batch being
  \<^verbatim>\<open>recipient_list[i : i + step]\<close>.
\<close>

function batch_loop ::
  "(string list \<Rightarrow> batch_acc \<Rightarrow> world \<Rightarrow> (exn + batch_acc) \<times> world) \<Rightarrow> string list \<Rightarrow> nat \<Rightarrow> nat
   \<Rightarrow> batch_acc \<Rightarrow> world \<Rightarrow> (exn + batch_acc) \<times> world" where
  "batch_loop body recipient_list step i acc w =
     (if 0 < step \<and> i < length recipient_list
      then (case body (take step (drop i recipient_list)) acc w of
              (Inl e, w1) \<Rightarrow> (Inl e, w1)
            | (Inr acc1, w1) \<Rightarrow> batch_loop body recipient_list step (i + step) acc1 w1)
      else (Inr acc, w))"
  by pat_completeness auto
termination
  by (relation "measure (\<lambda>(body, recipient_list, step, i, acc, w). length recipient_list - i)") auto

declare batch_loop.simps [simp del]

text \<open>A step of zero makes \<open>range\<close> raise; a negative step gives an empty range.\<close>

definition send_batch_emails ::
  "env \<Rightarrow> config \<Rightarrow> string \<Rightarrow> template_context \<Rightarrow> string list \<Rightarrow> string \<Rightarrow> world
   \<Rightarrow> (exn + batch_acc) \<times> world" where
  "send_batch_emails E cfg template_name context recipient_list subject w =
     (if BATCH_SIZE cfg = 0 then (Inl (ValueError RangeStepZero), w)
      else if BATCH_SIZE cfg < 0 then (Inr (0, 0, []), w)
      else batch_loop (send_batch E cfg template_name context subject) recipient_list
             (nat (BATCH_SIZE cfg)) 0 (0, 0, []) w)"

text \<open>The batches the loop visits, in the order it visits them.\<close>

function batches :: "nat \<Rightarrow> nat \<Rightarrow> 'a list \<Rightarrow> 'a list list" where
  "batches step i xs =
     (if 0 < step \<and> i < length xs
      then take step (drop i xs) # batches step (i + step) xs
      else [])"
  by pat_completeness auto
termination
  by (relation "measure (\<lambda>(step, i, xs). length xs - i)") auto

declare batches.simps [simp del]

section \<open>Retry loop\<close>

text \<open>\<^verbatim>\<open>failed[key]\<close>, which raises \<open>KeyError\<close> for an absent key.\<close>

definition lookup :: "string \<Rightarrow> 'a option \<Rightarrow> exn + 'a" where
  "lookup key v = (case v of None \<Rightarrow> Inl (KeyError key) | Some x \<Rightarrow> Inr x)"

text \<open>
  What \<open>prepare_email_message\<close> leaves in the dictionary it was given as context. In the
  retry loop that dictionary is \<^verbatim>\<open>failed["context"]\<close>, an entry of a record of the caller's
  list, so the list shows the update.
\<close>

definition platform_context :: "config \<Rightarrow> template_context \<Rightarrow> template_context" where
  "platform_context cfg context =
     dict_update
       [(''site_name'', platform_name cfg),
        (''company_address'', platform_address cfg),
        (''support_email'', platform_contact_email cfg),
        (''unsubscribe_link'', unsubscribe_link cfg)] context"

text \<open>The list with its first element equal to \<open>x\<close> replaced by \<open>y\<close>.\<close>

fun replace_first :: "'a \<Rightarrow> 'a \<Rightarrow> 'a list \<Rightarrow> 'a list" where
  "replace_first x y [] = []"
| "replace_first x y (z # zs) = (if z = x then y # zs else z # replace_first x y zs)"

text \<open>
  The body of \<^verbatim>\<open>try\<close> for one record: the four lookups in the order of the keyword
  arguments, the build (which updates the record's context), the send, the removal from the
  caller's list. The caller's list is \<open>failed_recipients\<close> in the source and \<open>pending\<close>
  here; the function changes it in place, so the result holds it on every path, next to the
  exception raised (\<open>None\<close> when the body completes). Each record is taken to own its
  context dictionary.
\<close>

definition retry_try ::
  "env \<Rightarrow> config \<Rightarrow> failed_record \<Rightarrow> failed_record list \<Rightarrow> world
   \<Rightarrow> (exn option \<times> failed_record list) \<times> world" where
  "retry_try E cfg failed pending w =
     (case lookup ''subject'' (fr_subject failed) of
        Inl e \<Rightarrow> ((Some e, pending), w)
      | Inr subject \<Rightarrow>
     (case lookup ''template_name'' (fr_template_name failed) of
        Inl e \<Rightarrow> ((Some e, pending), w)
      | Inr template_name \<Rightarrow>
     (case lookup ''context'' (fr_context failed) of
        Inl e \<Rightarrow> ((Some e, pending), w)
      | Inr context \<Rightarrow>
     (case lookup ''recipient'' (fr_recipient failed) of
        Inl e \<Rightarrow> ((Some e, pending), w)
      | Inr recipient \<Rightarrow>
     (let updated = failed\<lparr>fr_context := Some (platform_context cfg context)\<rparr>;
          pending1 = replace_first failed updated pending
      in case prepare_email_message E cfg subject template_name context (Inr [recipient])
                default_priority default_attachments w of
           (Inl e, w1) \<Rightarrow> ((Some e, pending1), w1)
         | (Inr email_message, w1) \<Rightarrow>
             (let w2 = emit (MessageSend email_message) w1 in
              case message_send E (trace w1) email_message of
                Inl e \<Rightarrow> ((Some e, pending1), w2)
              | Inr n \<Rightarrow>
                  (if updated \<in> set pending1
                   then ((None, remove1 updated pending1),
                         emit (LogInfo (RetrySent recipient)) w2)
                   else ((Some (ValueError NotInList), pending1), w2))))))))"

text \<open>
  \<^verbatim>\<open>try\<close> with its handler. The handler formats \<^verbatim>\<open>failed['recipient']\<close>, so a record
  without that key makes the handler itself raise, and that exception leaves the function.
\<close>

definition retry_one ::
  "env \<Rightarrow> config \<Rightarrow> nat \<Rightarrow> int \<Rightarrow> failed_record \<Rightarrow> failed_record list \<Rightarrow> world
   \<Rightarrow> (exn option \<times> failed_record list) \<times> world" where
  "retry_one E cfg attempt retries failed pending w =
     (case retry_try E cfg failed pending w of
        ((None, pending1), w1) \<Rightarrow> ((None, pending1), w1)
      | ((Some e, pending1), w1) \<Rightarrow>
          (case lookup ''recipient'' (fr_recipient failed) of
             Inl e1 \<Rightarrow> ((Some e1, pending1), w1)
           | Inr recipient \<Rightarrow>
               ((None, pending1),
                emit (LogError (RetryFailed attempt retries recipient e)) w1)))"

text \<open>The inner loop, over the copy of the list taken when the round starts.\<close>

fun retry_round ::
  "env \<Rightarrow> config \<Rightarrow> nat \<Rightarrow> int \<Rightarrow> failed_record list \<Rightarrow> failed_record list \<Rightarrow> world
   \<Rightarrow> (exn option \<times> failed_record list) \<times> world" where
  "retry_round E cfg attempt retries [] pending w = ((None, pending), w)"
| "retry_round E cfg attempt retries (failed # rest) pending w =
     (case retry_one E cfg attempt retries failed pending w of
        ((Some e, pending1), w1) \<Rightarrow> ((Some e, pending1), w1)
      | ((None, pending1), w1) \<Rightarrow> retry_round E cfg attempt retries rest pending1 w1)"

text \<open>
  The outer loop, over the attempt numbers. The test and the sleep end each round;
  \<open>time.sleep\<close> raises for a negative delay, outside any \<^verbatim>\<open>try\<close>.
\<close>

fun retry_rounds ::
  "env \<Rightarrow> config \<Rightarrow> int \<Rightarrow> int \<Rightarrow> nat list \<Rightarrow> failed_record list \<Rightarrow> world
   \<Rightarrow> (exn option \<times> failed_record list) \<times> world" where
  "retry_rounds E cfg retries delay [] pending w = ((None, pending), w)"
| "retry_rounds E cfg retries delay (attempt # later) pending w =
     (case retry_round E cfg attempt retries pending pending w of
        ((Some e, pending1), w1) \<Rightarrow> ((Some e, pending1), w1)
      | ((None, pending1), w1) \<Rightarrow>
          (if pending1 = [] then retry_rounds E cfg retries delay later pending1 w1
           else if delay < 0 then ((Some (ValueError NegativeSleep), pending1), w1)
           else retry_rounds E cfg retries delay later pending1 (emit (Sleep delay) w1)))"

text \<open>
  \<open>retry_failed_emails\<close> returns nothing; what the caller has afterwards is its list, and
  the exception if one was raised. The attempts are \<^verbatim>\<open>range(1, retries + 1)\<close>.
\<close>

definition retry_failed_emails ::
  "env \<Rightarrow> config \<Rightarrow> failed_record list \<Rightarrow> int \<Rightarrow> int \<Rightarrow> world
   \<Rightarrow> (exn option \<times> failed_record list) \<times> world" where
  "retry_failed_emails E cfg pending retries delay w =
     retry_rounds E cfg retries delay [1 ..< nat (retries + 1)] pending w"

text \<open>The defaults of \<open>retries\<close> and \<open>delay\<close>.\<close>

definition default_retries :: int where
  "default_retries = 3"

definition default_delay :: int where
  "default_delay = 5"

section \<open>Reading a trace\<close>

definition establishments :: "event list \<Rightarrow> nat" where
  "establishments evs = length (filter (\<lambda>ev. ev = GetConnection) evs)"

fun is_sleep :: "event \<Rightarrow> bool" where
  "is_sleep (Sleep d) = True"
| "is_sleep _ = False"

definition delays :: "event list \<Rightarrow> nat" where
  "delays evs = length (filter is_sleep evs)"

text \<open>The events of building a message and of handing messages to the transport.\<close>

fun is_build :: "event \<Rightarrow> bool" where
  "is_build (Render p) = True"
| "is_build (Build rs) = True"
| "is_build (AttachFile a) = True"
| "is_build _ = False"

fun is_transport :: "event \<Rightarrow> bool" where
  "is_transport GetConnection = True"
| "is_transport (MessageSend m) = True"
| "is_transport (SendMessages c ms) = True"
| "is_transport (ThreadStart ms) = True"
| "is_transport (Submit r) = True"
| "is_transport _ = False"

text \<open>The events a call has added to the trace.\<close>

definition new_events :: "world \<Rightarrow> world \<Rightarrow> event list" where
  "new_events w w1 = drop (length (trace w)) (trace w1)"

text \<open>The recipients of the tasks submitted to the pool, in the order of submission.\<close>

fun submitted :: "event list \<Rightarrow> string list" where
  "submitted [] = []"
| "submitted (Submit r # evs) = r # submitted evs"
| "submitted (ev # evs) = submitted evs"

text \<open>The events the message builder can add: those of the build and of the connection.\<close>

fun builder_event :: "event \<Rightarrow> bool" where
  "builder_event (Render p) = True"
| "builder_event (Build rs) = True"
| "builder_event (AttachFile a) = True"
| "builder_event GetConnection = True"
| "builder_event (LogError (ConnectionFailed e)) = True"
| "builder_event _ = False"

text \<open>The events \<open>send_email\<close> can add.\<close>

fun send_event :: "event \<Rightarrow> bool" where
  "send_event (MessageSend m) = True"
| "send_event (ThreadStart ms) = True"
| "send_event (LogInfo (SentTo n s)) = True"
| "send_event (LogError (SendFailed e s t n)) = True"
| "send_event ev = builder_event ev"

text \<open>The batches whose failure was logged, each with the exception, in the order of the log.\<close>

fun batch_failures :: "event list \<Rightarrow> (string list \<times> exn) list" where
  "batch_failures [] = []"
| "batch_failures (LogError (BatchFailed batch e) # evs) = (batch, e) # batch_failures evs"
| "batch_failures (ev # evs) = batch_failures evs"

text \<open>
  Batches with the outcome of their send (\<open>None\<close>: sent; \<open>Some e\<close>: the send raised \<open>e\<close>):
  what the function returns for them, and the failures among them.
\<close>

definition tally :: "(string list \<times> exn option) list \<Rightarrow> batch_acc \<Rightarrow> batch_acc" where
  "tally bos acc = fold (\<lambda>(batch, outcome). account batch outcome) bos acc"

definition failed_outcomes :: "(string list \<times> exn option) list \<Rightarrow> (string list \<times> exn) list" where
  "failed_outcomes bos =
     concat (map (\<lambda>(batch, outcome). case outcome of None \<Rightarrow> [] | Some e \<Rightarrow> [(batch, e)]) bos)"

text \<open>A record with the keys \<open>recipient\<close> and \<open>error\<close> and no other.\<close>

definition only_recipient_and_error :: "failed_record \<Rightarrow> bool" where
  "only_recipient_and_error r =
     (fr_recipient r \<noteq> None \<and> fr_error r \<noteq> None \<and> fr_subject r = None
      \<and> fr_template_name r = None \<and> fr_context r = None)"

text \<open>
  The events of one round of the retry loop in which every record lacks the key
  \<open>subject\<close>: one log entry for each record, then the sleep if there is any record.
\<close>

definition missing_subject_round :: "int \<Rightarrow> int \<Rightarrow> failed_record list \<Rightarrow> nat \<Rightarrow> event list" where
  "missing_subject_round retries delay pending attempt =
     map (\<lambda>r. LogError (RetryFailed attempt retries (the (fr_recipient r)) (KeyError ''subject'')))
       pending
     @ (if pending = [] then [] else [Sleep delay])"

section \<open>Sequences of calls, and collaborators to run them against\<close>

text \<open>\<open>n\<close> accesses to the \<open>connection\<close> property, one after the other.\<close>

fun accesses :: "env \<Rightarrow> nat \<Rightarrow> world \<Rightarrow> (exn + nat) list \<times> world" where
  "accesses E 0 w = ([], w)"
| "accesses E (Suc n) w =
     (case connection E w of (r, w1) \<Rightarrow>
        (case accesses E n w1 of (rs, w2) \<Rightarrow> (r # rs, w2)))"

definition demo_config :: config where
  "demo_config =
     \<lparr>BATCH_SIZE = 2, RETRY_ATTEMPTS = 3, RETRY_DELAY = 5, MAX_RECIPIENTS = 3,
      THREAD_POOL_SIZE = 4, TIMEOUT = 30, email_threading_enabled = False,
      platform_name = ''Waanverse'', platform_address = ''Kampala'',
      platform_contact_email = ''support@waanverse.com'',
      unsubscribe_link = ''https://waanverse.com/unsubscribe'',
      DEFAULT_FROM_EMAIL = ''noreply@waanverse.com''\<rparr>"

definition threaded_config :: config where
  "threaded_config = demo_config\<lparr>email_threading_enabled := True\<rparr>"

text \<open>Collaborators that always succeed.\<close>

definition transport_ok :: env where
  "transport_ok =
     \<lparr>get_connection = (\<lambda>h. Inr 1),
      render_to_string = (\<lambda>h p c. Inr ''<p>Hello</p>''),
      strip_tags = (\<lambda>html. ''Hello''),
      attach_file = (\<lambda>h a. None),
      message_send = (\<lambda>h m. Inr 1),
      send_messages = (\<lambda>h c ms. None)\<rparr>"

text \<open>A transport that raises on every send.\<close>

definition transport_down :: env where
  "transport_down =
     transport_ok\<lparr>message_send := (\<lambda>h m. Inl (External ''SMTP Connection Error'')),
                  send_messages := (\<lambda>h c ms. Some (External ''SMTP Connection Error''))\<rparr>"


text \<open>Three records that have every key the retry loop looks up.\<close>

definition full_record :: "string \<Rightarrow> failed_record" where
  "full_record recipient =
     \<lparr>fr_recipient = Some recipient, fr_error = Some ''SMTP Connection Error'',
      fr_subject = Some ''Notice'', fr_template_name = Some ''welcome_email'',
      fr_context = Some [(''name'', ''John'')]\<rparr>"

definition three_pending :: "failed_record list" where
  "three_pending = [full_record ''a@x.io'', full_record ''b@x.io'', full_record ''c@x.io'']"

text \<open>
  The message the builder makes for the welcome mail to \<open>test@example.com\<close> with the
  collaborators that always succeed, and the service after the build.
\<close>

definition welcome_message :: email_message where
  "welcome_message =
     \<lparr>msg_subject = ''Waanverse - Welcome'', msg_body = ''Hello'',
      msg_from_email = ''noreply@waanverse.com'', msg_to = [''test@example.com''],
      msg_connection = 1, msg_alternatives = [(''<p>Hello</p>'', ''text/html'')],
      msg_attachments = [], msg_extra_headers = []\<rparr>"

definition welcome_built :: world where
  "welcome_built =
     \<lparr>conn = Some 1,
      trace = [Render ''emails/welcome_email.html'', GetConnection,
               Build [''test@example.com'']]\<rparr>"

text \<open>A transport to which no connection can be established.\<close>

definition connection_refused :: env where
  "connection_refused =
     transport_ok\<lparr>get_connection := (\<lambda>h. Inl (External ''connection refused''))\<rparr>"


definition three_recipients :: "string list" where
  "three_recipients = [''a@x.io'', ''b@x.io'', ''c@x.io'']"

definition mixed_recipients :: "string list" where
  "mixed_recipients = [''a@x.io'', ''nobody'', ''b@x.io'']"

section \<open>Validator: results\<close>

lemmas email_regex_eval =
  email_regex_def Plus_def AtLeast2_def local_class_def domain_class_def alpha_def digit_def
  in_range_def is_char_def newline_def

lemma split_on_not_empty: "split_on sep s \<noteq> []"
  by (induction s) (auto split: list.splits)

lemma first_split_on: "first (split_on sep s) = Inr (takeWhile (\<lambda>c. c \<noteq> sep) s)"
  by (induction s) (auto simp: first_def split: list.splits)

lemma validate_email_try_total: "\<exists>b. validate_email_try s = Inr b"
  by (auto simp: validate_email_try_def first_split_on)

lemma validate_email_char:
  "validate_email s =
     (s \<noteq> [] \<and> re_match email_regex s \<and> length s \<le> 254
      \<and> length (takeWhile (\<lambda>c. c \<noteq> CHR ''@'') s) \<le> 64)"
  by (simp add: validate_email_def validate_email_try_def first_split_on)

lemma spec_valid_imp_validate_email: "spec_valid_address s \<Longrightarrow> validate_email s"
  by (simp add: validate_email_char spec_valid_address_def re_match_def)

text \<open>
  Claim C1: \<open>validate_email s\<close> is true exactly when \<open>s\<close> is non-empty, matches the pattern,
  has at most 254 characters and at most 64 before the first \<open>@\<close>. The code accepts every
  such address (\<open>spec_valid_imp_validate_email\<close>), but it accepts more: an address of the
  grammar followed by a newline is not a word of the pattern, and \<open>validate_email\<close> returns
  true for it, because \<open>$\<close> also matches before a final newline.
\<close>

theorem validate_email_accepts_trailing_newline:
  "validate_email (''a@b.cc'' @ [newline])
   \<and> \<not> accepts email_regex (''a@b.cc'' @ [newline])
   \<and> \<not> spec_valid_address (''a@b.cc'' @ [newline])"
  by (simp add: validate_email_char spec_valid_address_def re_match_def email_regex_eval)

section \<open>Traces: basic facts\<close>

lemma trace_emit [simp]: "trace (emit e w) = trace w @ [e]"
  by (simp add: emit_def)

lemma conn_emit [simp]: "conn (emit e w) = conn w"
  by (simp add: emit_def)

lemma new_events_append: "trace w1 = trace w @ evs \<Longrightarrow> new_events w w1 = evs"
  by (simp add: new_events_def)

lemma new_events_self [simp]: "new_events w w = []"
  by (simp add: new_events_def)

lemma establishments_append [simp]:
  "establishments (xs @ ys) = establishments xs + establishments ys"
  by (simp add: establishments_def)

lemmas demo_defs =
  demo_config_def transport_ok_def transport_down_def connection_refused_def init_world_def

section \<open>Connection manager: results\<close>

lemma connection_cached: "conn w = Some c \<Longrightarrow> connection E w = (Inr c, w)"
  by (simp add: connection_def)

lemma connection_fresh_ok:
  "conn w = None \<Longrightarrow> get_connection E (trace w) = Inr c \<Longrightarrow>
   connection E w = (Inr c, (emit GetConnection w)\<lparr>conn := Some c\<rparr>)"
  by (simp add: connection_def Let_def)

lemma connection_fresh_fail:
  "conn w = None \<Longrightarrow> get_connection E (trace w) = Inl e \<Longrightarrow>
   connection E w = (Inl e, emit (LogError (ConnectionFailed e)) (emit GetConnection w))"
  by (simp add: connection_def Let_def)

lemma connection_Inr_conn: "connection E w = (Inr c, w1) \<Longrightarrow> conn w1 = Some c"
  by (auto simp: connection_def Let_def split: option.splits sum.splits)

lemma accesses_cached: "conn w = Some c \<Longrightarrow> accesses E n w = (replicate n (Inr c), w)"
  by (induction n) (simp_all add: connection_cached)

text \<open>
  Claim C6: on a service that holds no connection yet, when the first access establishes
  one, that access and every access after it return the same handle, and the whole sequence
  of accesses establishes a connection exactly once.
\<close>

theorem connection_idempotent:
  assumes "conn w = None" and "get_connection E (trace w) = Inr c"
  shows "\<exists>w1. accesses E (Suc n) w = (replicate (Suc n) (Inr c), w1)
           \<and> conn w1 = Some c
           \<and> establishments (new_events w w1) = 1"
proof -
  let ?w1 = "(emit GetConnection w)\<lparr>conn := Some c\<rparr>"
  have first: "connection E w = (Inr c, ?w1)"
    using assms by (rule connection_fresh_ok)
  have rest: "accesses E n ?w1 = (replicate n (Inr c), ?w1)"
    by (rule accesses_cached) simp
  have "new_events w ?w1 = [GetConnection]"
    by (rule new_events_append) simp
  then have "establishments (new_events w ?w1) = 1"
    by (simp add: establishments_def)
  with first rest show ?thesis by simp
qed

theorem connection_idempotent_witness:
  "conn init_world = None \<and> get_connection transport_ok (trace init_world) = Inr 1
   \<and> (\<exists>w1. accesses transport_ok (Suc 1) init_world = (replicate (Suc 1) (Inr 1), w1)
           \<and> conn w1 = Some 1
           \<and> establishments (new_events init_world w1) = 1)"
  using connection_idempotent [of init_world transport_ok 1 1]
  by (simp add: init_world_def transport_ok_def)

section \<open>Message builder: results\<close>

lemma attach_files_events:
  "attach_files E as msg w = (r, w1) \<Longrightarrow>
   \<exists>evs. trace w1 = trace w @ evs \<and> (\<forall>ev \<in> set evs. builder_event ev)"
proof (induction as arbitrary: msg w)
  case Nil
  then show ?case by simp
next
  case (Cons a as)
  show ?case
  proof (cases "attach_file E (trace w) a")
    case None
    with Cons.prems
    have "attach_files E as (msg\<lparr>msg_attachments := msg_attachments msg @ [a]\<rparr>)
            (emit (AttachFile a) w) = (r, w1)"
      by (simp add: Let_def)
    from Cons.IH [OF this] show ?thesis by auto
  next
    case (Some e)
    with Cons.prems show ?thesis by (auto simp: Let_def)
  qed
qed

lemma connection_events:
  "connection E w = (r, w1) \<Longrightarrow>
   \<exists>evs. trace w1 = trace w @ evs \<and> (\<forall>ev \<in> set evs. builder_event ev)"
  by (auto simp: connection_def Let_def split: option.splits sum.splits)

lemma prepare_email_message_events:
  assumes "prepare_email_message E cfg subject template_name context recipient_list priority
             attachments w = (r, w1)"
  shows "\<exists>evs. trace w1 = trace w @ evs \<and> (\<forall>ev \<in> set evs. builder_event ev)"
proof -
  let ?p = "''emails/'' @ template_name @ ''.html''"
  let ?c = "platform_context cfg context"
  let ?w1 = "emit (Render ?p) w"
  show ?thesis
  proof (cases "render_to_string E (trace w) ?p ?c")
    case (Inl e)
    with assms show ?thesis
      by (auto simp: prepare_email_message_def platform_context_def Let_def)
  next
    case (Inr html)
    obtain rc w2 where c: "connection E ?w1 = (rc, w2)"
      by (cases "connection E ?w1") auto
    from connection_events [OF c] obtain evs2 where
      e2: "trace w2 = trace ?w1 @ evs2" "\<forall>ev \<in> set evs2. builder_event ev" by blast
    show ?thesis
    proof (cases rc)
      case (Inl e)
      with assms Inr c e2 show ?thesis
        by (auto simp: prepare_email_message_def platform_context_def Let_def)
    next
      case (Inr cn)
      let ?msg = "\<lparr>msg_subject = subject, msg_body = strip_tags E html,
                    msg_from_email = DEFAULT_FROM_EMAIL cfg, msg_to = as_list recipient_list,
                    msg_connection = cn,
                    msg_alternatives = [(html, ''text/html'')],
                    msg_attachments = [], msg_extra_headers = []\<rparr>"
      let ?w3 = "emit (Build (as_list recipient_list)) w2"
      obtain ra w4 where
        a: "attach_files E (case attachments of None \<Rightarrow> [] | Some as \<Rightarrow> as) ?msg ?w3 = (ra, w4)"
        by (cases "attach_files E (case attachments of None \<Rightarrow> [] | Some as \<Rightarrow> as) ?msg ?w3") auto
      from attach_files_events [OF a] obtain evs4 where
        e4: "trace w4 = trace ?w3 @ evs4" "\<forall>ev \<in> set evs4. builder_event ev" by blast
      from assms \<open>render_to_string E (trace w) ?p ?c = Inr html\<close> c Inr a
      have "w1 = w4"
        by (auto simp: prepare_email_message_def platform_context_def Let_def split: sum.splits)
      with e2 e4 show ?thesis by auto
    qed
  qed
qed

section \<open>Single send: results\<close>

lemma send_email_never_raises:
  "\<exists>b w1. send_email E cfg subject template_name context recipient_list priority attachments
             async_send w = (Inr b, w1)"
  by (auto simp: send_email_def Let_def split: prod.splits sum.splits)

text \<open>
  Claim C2: with more recipients than \<open>MAX_RECIPIENTS\<close>, \<open>send_email\<close> returns false and
  raises nothing; the only thing it does is to log the failure, which names the
  \<open>ValueError\<close> about the number of recipients. No template is rendered, no message is
  built and the transport is not called.
\<close>

theorem send_email_too_many_recipients:
  assumes "int (length (as_list recipient_list)) > MAX_RECIPIENTS cfg"
  shows "\<exists>w1. send_email E cfg subject template_name context recipient_list priority attachments
                async_send w = (Inr False, w1)
           \<and> conn w1 = conn w
           \<and> new_events w w1 =
               [LogError (SendFailed (ValueError (TooManyRecipients (MAX_RECIPIENTS cfg)))
                  subject template_name (length (as_list recipient_list)))]
           \<and> (\<forall>ev \<in> set (new_events w w1). \<not> is_build ev \<and> \<not> is_transport ev)"
  using assms by (simp add: send_email_def send_email_try_def new_events_def)

theorem send_email_too_many_recipients_witness:
  "int (length (as_list (Inr [''a@x.io'', ''b@x.io'', ''c@x.io'', ''d@x.io''])))
     > MAX_RECIPIENTS demo_config
   \<and> (\<exists>w1. send_email transport_ok demo_config ''Notice'' ''welcome_email'' []
              (Inr [''a@x.io'', ''b@x.io'', ''c@x.io'', ''d@x.io'']) ''medium'' None True init_world
              = (Inr False, w1)
           \<and> conn w1 = conn init_world
           \<and> new_events init_world w1 =
               [LogError (SendFailed (ValueError (TooManyRecipients (MAX_RECIPIENTS demo_config)))
                  ''Notice'' ''welcome_email''
                  (length (as_list (Inr [''a@x.io'', ''b@x.io'', ''c@x.io'', ''d@x.io'']))))]
           \<and> (\<forall>ev \<in> set (new_events init_world w1). \<not> is_build ev \<and> \<not> is_transport ev))"
proof -
  have h: "int (length (as_list (Inr [''a@x.io'', ''b@x.io'', ''c@x.io'', ''d@x.io''])))
     > MAX_RECIPIENTS demo_config"
    by (simp add: as_list_def demo_config_def)
  show ?thesis
    using h send_email_too_many_recipients [OF h, of transport_ok "''Notice''"
        "''welcome_email''" "[]" "''medium''" None True init_world]
    by blast
qed

text \<open>
  Claim C7 says that a failure to establish the connection during \<open>send_email\<close> is raised
  to the caller of \<open>send_email\<close>. It is not: with a transport that refuses the connection,
  \<open>send_email\<close> returns false.
\<close>

theorem send_email_connection_error_counterexample:
  "send_email connection_refused demo_config ''Hi'' ''welcome_email'' [] (Inl ''a@b.cc'')
     default_priority default_attachments False init_world
   = (Inr False,
      \<lparr>conn = None,
       trace =
         [Render ''emails/welcome_email.html'', GetConnection,
          LogError (ConnectionFailed (External ''connection refused'')),
          LogError (SendFailed (External ''connection refused'') ''Hi'' ''welcome_email'' 1)]\<rparr>)"
  by (simp add: send_email_def send_email_try_def prepare_email_message_def connection_def
        as_list_def emit_def dict_update_def default_priority_def default_attachments_def
        demo_defs Let_def)

text \<open>
  Claim C7, amended: when \<open>send_email\<close> reaches the connection (the recipients are within
  the limit, the template has rendered, no connection is cached) and the connection cannot
  be established, the \<open>connection\<close> property logs the error and raises it to the message
  builder, and \<open>send_email\<close> catches it, logs the failed send and returns false. No
  connection is cached.
\<close>

theorem send_email_connection_failure:
  assumes "int (length (as_list recipient_list)) \<le> MAX_RECIPIENTS cfg"
    and "conn w = None"
    and "render_to_string E (trace w) (''emails/'' @ template_name @ ''.html'')
           (platform_context cfg context) = Inr html"
    and "get_connection E (trace w @ [Render (''emails/'' @ template_name @ ''.html'')]) = Inl e"
  shows "\<exists>w1. send_email E cfg subject template_name context recipient_list priority attachments
                async_send w = (Inr False, w1)
           \<and> conn w1 = None
           \<and> new_events w w1 =
               [Render (''emails/'' @ template_name @ ''.html''), GetConnection,
                LogError (ConnectionFailed e),
                LogError (SendFailed e subject template_name (length (as_list recipient_list)))]"
proof -
  let ?p = "''emails/'' @ template_name @ ''.html''"
  let ?w1 = "emit (Render ?p) w"
  have c: "connection E ?w1 = (Inl e, emit (LogError (ConnectionFailed e)) (emit GetConnection ?w1))"
    using assms(2,4) by (intro connection_fresh_fail) simp_all
  have p: "prepare_email_message E cfg subject template_name context (Inr (as_list recipient_list))
             priority attachments w
           = (Inl e, emit (LogError (ConnectionFailed e)) (emit GetConnection ?w1))"
    using assms(3) c by (simp add: prepare_email_message_def platform_context_def Let_def)
  show ?thesis
    using assms(1,2) p
    by (simp add: send_email_def send_email_try_def new_events_def Let_def)
qed

theorem send_email_connection_failure_witness:
  "int (length (as_list (Inl ''a@b.cc''))) \<le> MAX_RECIPIENTS demo_config
   \<and> conn init_world = None
   \<and> render_to_string connection_refused (trace init_world)
         (''emails/'' @ ''welcome_email'' @ ''.html'') (platform_context demo_config [])
       = Inr ''<p>Hello</p>''
   \<and> get_connection connection_refused
         (trace init_world @ [Render (''emails/'' @ ''welcome_email'' @ ''.html'')])
       = Inl (External ''connection refused'')
   \<and> (\<exists>w1. send_email connection_refused demo_config ''Hi'' ''welcome_email'' [] (Inl ''a@b.cc'')
              ''medium'' None False init_world = (Inr False, w1)
           \<and> conn w1 = None
           \<and> new_events init_world w1 =
               [Render (''emails/'' @ ''welcome_email'' @ ''.html''), GetConnection,
                LogError (ConnectionFailed (External ''connection refused'')),
                LogError (SendFailed (External ''connection refused'') ''Hi'' ''welcome_email''
                  (length (as_list (Inl ''a@b.cc''))))])"
proof -
  have h1: "int (length (as_list (Inl ''a@b.cc''))) \<le> MAX_RECIPIENTS demo_config"
    by (simp add: as_list_def demo_config_def)
  have h2: "conn init_world = None"
    by (simp add: init_world_def)
  have h3: "render_to_string connection_refused (trace init_world)
         (''emails/'' @ ''welcome_email'' @ ''.html'') (platform_context demo_config [])
       = Inr ''<p>Hello</p>''"
    by (simp add: connection_refused_def transport_ok_def)
  have h4: "get_connection connection_refused
         (trace init_world @ [Render (''emails/'' @ ''welcome_email'' @ ''.html'')])
       = Inl (External ''connection refused'')"
    by (simp add: connection_refused_def transport_ok_def)
  show ?thesis
    using h1 h2 h3 h4
      send_email_connection_failure [OF h1 h2 h3 h4, of "''Hi''" "''medium''" None False]
    by blast
qed

section \<open>Transactional dispatcher: results\<close>

lemmas title_eval =
  transactional_subject_def title_def replace_char_def upper_def lower_def
  ascii_lowercase_def ascii_uppercase_def alpha_def in_range_def

lemma subject_welcome: "transactional_subject ''welcome'' = ''Waanverse - Welcome''"
  by (simp add: title_eval)

lemma subject_password_reset:
  "transactional_subject ''password_reset'' = ''Waanverse - Password Reset''"
  by (simp add: title_eval)

lemma subject_account_verification:
  "transactional_subject ''account_verification'' = ''Waanverse - Account Verification''"
  by (simp add: title_eval)

lemma templates_lookup: "map_of templates ev = Some t \<longleftrightarrow> (ev, t) \<in> set templates"
  by (auto simp: templates_def)

lemma templates_nonempty: "(ev, t) \<in> set templates \<Longrightarrow> t \<noteq> []"
  by (auto simp: templates_def)

lemma templates_unknown:
  "ev \<notin> {''welcome'', ''password_reset'', ''account_verification''} \<Longrightarrow> map_of templates ev = None"
  by (auto simp: templates_def)

lemma send_transactional_email_mapped:
  assumes "(ev, t) \<in> set templates"
  shows "\<exists>b w1. send_email E cfg (transactional_subject ev) t context (Inl recipient)
                  default_priority default_attachments default_async_send w = (Inr b, w1)
             \<and> send_transactional_email E cfg recipient ev context w = (b, w1)"
proof -
  obtain b w1 where s: "send_email E cfg (transactional_subject ev) t context (Inl recipient)
                  default_priority default_attachments default_async_send w = (Inr b, w1)"
    using send_email_never_raises by blast
  have "map_of templates ev = Some t" "t \<noteq> []"
    using assms by (simp_all add: templates_lookup templates_nonempty)
  then have "send_transactional_email E cfg recipient ev context w = (b, w1)"
    using s by (simp add: send_transactional_email_def)
  with s show ?thesis by blast
qed

text \<open>
  Claim C8: for an event type outside the table, \<open>send_transactional_email\<close> returns false
  and all it does is to write one log entry, so \<open>send_email\<close> is not called. For an event
  type of the table it returns what \<open>send_email\<close> returns for the template of that event.
\<close>

theorem send_transactional_email_dispatch:
  assumes "unknown \<notin> {''welcome'', ''password_reset'', ''account_verification''}"
    and "(event_type, template) \<in>
           {(''welcome'', ''welcome_email''), (''password_reset'', ''password_reset''),
            (''account_verification'', ''account_verification'')}"
  shows "(\<exists>w1. send_transactional_email E cfg recipient unknown context w = (False, w1)
            \<and> conn w1 = conn w
            \<and> new_events w w1 = [LogError (UnknownType unknown)])
       \<and> (\<exists>b w1. send_email E cfg (transactional_subject event_type) template context
                    (Inl recipient) default_priority default_attachments default_async_send w
                  = (Inr b, w1)
               \<and> send_transactional_email E cfg recipient event_type context w = (b, w1))"
proof -
  have "map_of templates unknown = None"
    using assms(1) by (rule templates_unknown)
  then have a: "send_transactional_email E cfg recipient unknown context w
                  = (False, emit (LogError (UnknownType unknown)) w)"
    by (simp add: send_transactional_email_def)
  have "(event_type, template) \<in> set templates"
    using assms(2) by (auto simp: templates_def)
  then have b: "\<exists>b w1. send_email E cfg (transactional_subject event_type) template context
                    (Inl recipient) default_priority default_attachments default_async_send w
                  = (Inr b, w1)
               \<and> send_transactional_email E cfg recipient event_type context w = (b, w1)"
    by (rule send_transactional_email_mapped)
  from a b show ?thesis by (simp add: new_events_def)
qed

theorem send_transactional_email_dispatch_witness:
  "''unknown_event'' \<notin> {''welcome'', ''password_reset'', ''account_verification''}
   \<and> (''password_reset'', ''password_reset'') \<in>
           {(''welcome'', ''welcome_email''), (''password_reset'', ''password_reset''),
            (''account_verification'', ''account_verification'')}
   \<and> (\<exists>w1. send_transactional_email transport_ok demo_config ''test@example.com''
               ''unknown_event'' [] init_world = (False, w1)
            \<and> conn w1 = conn init_world
            \<and> new_events init_world w1 = [LogError (UnknownType ''unknown_event'')])
   \<and> (\<exists>b w1. send_email transport_ok demo_config (transactional_subject ''password_reset'')
                 ''password_reset'' [] (Inl ''test@example.com'') default_priority
                 default_attachments default_async_send init_world = (Inr b, w1)
             \<and> send_transactional_email transport_ok demo_config ''test@example.com''
                 ''password_reset'' [] init_world = (b, w1))"
proof -
  have h1: "''unknown_event'' \<notin> {''welcome'', ''password_reset'', ''account_verification''}"
    by simp
  have h2: "(''password_reset'', ''password_reset'') \<in>
           {(''welcome'', ''welcome_email''), (''password_reset'', ''password_reset''),
            (''account_verification'', ''account_verification'')}"
    by simp
  show ?thesis
    using h1 h2
      send_transactional_email_dispatch [OF h1 h2, of transport_ok demo_config
        "''test@example.com''" "[]" init_world]
    by blast
qed

text \<open>
  Claim C9 says that the dispatcher's send is synchronous, \<open>async_send\<close> being false by
  default. The default is true: with threading enabled in the configuration, the dispatcher
  starts a thread and does not send on the calling thread, which is not what \<open>send_email\<close>
  does with \<open>async_send = False\<close>.
\<close>

theorem send_transactional_email_sync_counterexample:
  "send_transactional_email transport_ok threaded_config ''test@example.com'' ''welcome'' []
     init_world
   = (True,
      \<lparr>conn = Some 1,
       trace =
         [Render ''emails/welcome_email.html'', GetConnection, Build [''test@example.com''],
          ThreadStart
            [\<lparr>msg_subject = ''Waanverse - Welcome'', msg_body = ''Hello'',
              msg_from_email = ''noreply@waanverse.com'', msg_to = [''test@example.com''],
              msg_connection = 1, msg_alternatives = [(''<p>Hello</p>'', ''text/html'')],
              msg_attachments = [], msg_extra_headers = []\<rparr>],
          LogInfo (SentTo 1 ''Waanverse - Welcome'')]\<rparr>)
   \<and> send_transactional_email transport_ok threaded_config ''test@example.com'' ''welcome'' []
       init_world
     \<noteq> (True,
         snd (send_email transport_ok threaded_config (transactional_subject ''welcome'')
                ''welcome_email'' [] (Inl ''test@example.com'') default_priority
                default_attachments False init_world))"
  by (simp add: send_transactional_email_def templates_def subject_welcome send_email_def
        send_email_try_def prepare_email_message_def connection_def as_list_def emit_def
        dict_update_def default_priority_def default_attachments_def default_async_send_def
        threaded_config_def demo_defs Let_def)

text \<open>
  Claim C9, amended: for an event type of the table, the dispatcher calls \<open>send_email\<close>
  with \<open>async_send = True\<close>, the default of \<open>send_email\<close>. When the message is built, then
  with threading enabled in the configuration the dispatcher hands it to a new thread,
  sends nothing on the calling thread and returns true; with threading disabled it sends
  the message on the calling thread, and returns true when the send returns and false when
  it raises.
\<close>

theorem send_transactional_email_async:
  assumes "(event_type, template) \<in> set templates"
    and "1 \<le> MAX_RECIPIENTS cfg"
    and "prepare_email_message E cfg (transactional_subject event_type) template context
           (Inr [recipient]) default_priority default_attachments w = (Inr email_message, w1)"
  shows "default_async_send
       \<and> (email_threading_enabled cfg \<longrightarrow>
            send_transactional_email E cfg recipient event_type context w
              = (True,
                 emit (LogInfo (SentTo 1 (transactional_subject event_type)))
                   (emit (ThreadStart [email_message]) w1)))
       \<and> (\<not> email_threading_enabled cfg \<longrightarrow>
            send_transactional_email E cfg recipient event_type context w
              = (case message_send E (trace w1) email_message of
                   Inr n \<Rightarrow>
                     (True,
                      emit (LogInfo (SentTo 1 (transactional_subject event_type)))
                        (emit (MessageSend email_message) w1))
                 | Inl e \<Rightarrow>
                     (False,
                      emit (LogError (SendFailed e (transactional_subject event_type) template 1))
                        (emit (MessageSend email_message) w1))))
       \<and> (\<forall>ev \<in> set (new_events w w1). builder_event ev)"
proof -
  have t: "map_of templates event_type = Some template" "template \<noteq> []"
    using assms(1) by (simp_all add: templates_lookup templates_nonempty)
  from prepare_email_message_events [OF assms(3)] obtain evs where
    "trace w1 = trace w @ evs" "\<forall>ev \<in> set evs. builder_event ev" by blast
  then have b: "\<forall>ev \<in> set (new_events w w1). builder_event ev"
    by (simp add: new_events_def)
  have a: "send_transactional_email E cfg recipient event_type context w
              = (True,
                 emit (LogInfo (SentTo 1 (transactional_subject event_type)))
                   (emit (ThreadStart [email_message]) w1))"
    if "email_threading_enabled cfg"
    using that t assms(2,3)
    by (simp add: send_transactional_email_def send_email_def send_email_try_def as_list_def
          default_async_send_def Let_def)
  have s: "send_transactional_email E cfg recipient event_type context w
              = (case message_send E (trace w1) email_message of
                   Inr n \<Rightarrow>
                     (True,
                      emit (LogInfo (SentTo 1 (transactional_subject event_type)))
                        (emit (MessageSend email_message) w1))
                 | Inl e \<Rightarrow>
                     (False,
                      emit (LogError (SendFailed e (transactional_subject event_type) template 1))
                        (emit (MessageSend email_message) w1)))"
    if "\<not> email_threading_enabled cfg"
    using that t assms(2,3)
    by (simp add: send_transactional_email_def send_email_def send_email_try_def as_list_def
          default_async_send_def Let_def split: sum.splits)
  from a s b show ?thesis
    by (simp add: default_async_send_def)
qed

theorem send_transactional_email_async_witness:
  "(''welcome'', ''welcome_email'') \<in> set templates
   \<and> 1 \<le> MAX_RECIPIENTS threaded_config
   \<and> prepare_email_message transport_ok threaded_config (transactional_subject ''welcome'')
         ''welcome_email'' [] (Inr [''test@example.com'']) default_priority default_attachments
         init_world = (Inr welcome_message, welcome_built)
   \<and> email_threading_enabled threaded_config
   \<and> send_transactional_email transport_ok threaded_config ''test@example.com'' ''welcome'' []
         init_world
       = (True,
          emit (LogInfo (SentTo 1 (transactional_subject ''welcome'')))
            (emit (ThreadStart [welcome_message]) welcome_built))
   \<and> 1 \<le> MAX_RECIPIENTS demo_config
   \<and> prepare_email_message transport_ok demo_config (transactional_subject ''welcome'')
         ''welcome_email'' [] (Inr [''test@example.com'']) default_priority default_attachments
         init_world = (Inr welcome_message, welcome_built)
   \<and> \<not> email_threading_enabled demo_config
   \<and> send_transactional_email transport_ok demo_config ''test@example.com'' ''welcome'' []
         init_world
       = (True,
          emit (LogInfo (SentTo 1 (transactional_subject ''welcome'')))
            (emit (MessageSend welcome_message) welcome_built))"
proof -
  have h1: "(''welcome'', ''welcome_email'') \<in> set templates"
    by (simp add: templates_def)
  have h2: "1 \<le> MAX_RECIPIENTS threaded_config" "1 \<le> MAX_RECIPIENTS demo_config"
    by (simp_all add: threaded_config_def demo_config_def)
  have h3: "prepare_email_message transport_ok threaded_config (transactional_subject ''welcome'')
         ''welcome_email'' [] (Inr [''test@example.com'']) default_priority default_attachments
         init_world = (Inr welcome_message, welcome_built)"
    by (simp add: prepare_email_message_def connection_def as_list_def emit_def dict_update_def
          default_priority_def default_attachments_def subject_welcome welcome_message_def
          welcome_built_def threaded_config_def demo_defs Let_def)
  have h4: "prepare_email_message transport_ok demo_config (transactional_subject ''welcome'')
         ''welcome_email'' [] (Inr [''test@example.com'']) default_priority default_attachments
         init_world = (Inr welcome_message, welcome_built)"
    by (simp add: prepare_email_message_def connection_def as_list_def emit_def dict_update_def
          default_priority_def default_attachments_def subject_welcome welcome_message_def
          welcome_built_def demo_defs Let_def)
  have t: "email_threading_enabled threaded_config" "\<not> email_threading_enabled demo_config"
    by (simp_all add: threaded_config_def demo_config_def)
  have m: "message_send transport_ok (trace welcome_built) welcome_message = Inr 1"
    by (simp add: transport_ok_def)
  show ?thesis
    using h1 h2 h3 h4 t m
      send_transactional_email_async [OF h1 h2(1) h3]
      send_transactional_email_async [OF h1 h2(2) h4]
    by simp
qed

section \<open>Parallel send: results\<close>

text \<open>What \<open>send_email\<close> adds to the trace: never a submission to the pool.\<close>

lemma builder_send_event: "builder_event ev \<Longrightarrow> send_event ev"
  by (cases ev rule: send_event.cases) simp_all

lemma send_email_try_events:
  assumes "send_email_try E cfg subject template_name context recipients priority attachments
             async_send w = (r, w1)"
  shows "\<exists>evs. trace w1 = trace w @ evs \<and> (\<forall>ev \<in> set evs. send_event ev)"
proof (cases "int (length recipients) > MAX_RECIPIENTS cfg")
  case True
  with assms show ?thesis by (simp add: send_email_try_def)
next
  case False
  obtain rp w2 where p: "prepare_email_message E cfg subject template_name context
      (Inr recipients) priority attachments w = (rp, w2)"
    by (cases "prepare_email_message E cfg subject template_name context
      (Inr recipients) priority attachments w") auto
  from prepare_email_message_events [OF p] obtain evs2 where
    e2: "trace w2 = trace w @ evs2" "\<forall>ev \<in> set evs2. builder_event ev" by blast
  then have e2': "\<forall>ev \<in> set evs2. send_event ev"
    by (auto intro: builder_send_event)
  from assms False p e2(1) e2' show ?thesis
    by (auto simp: send_email_try_def Let_def split: sum.splits if_splits)
qed

lemma send_email_events:
  assumes "send_email E cfg subject template_name context recipient_list priority attachments
             async_send w = (r, w1)"
  shows "\<exists>evs. trace w1 = trace w @ evs \<and> (\<forall>ev \<in> set evs. send_event ev)"
proof -
  obtain rt w2 where t: "send_email_try E cfg subject template_name context
      (as_list recipient_list) priority attachments async_send w = (rt, w2)"
    by (cases "send_email_try E cfg subject template_name context
      (as_list recipient_list) priority attachments async_send w") auto
  from send_email_try_events [OF t] obtain evs2 where
    e2: "trace w2 = trace w @ evs2" "\<forall>ev \<in> set evs2. send_event ev" by blast
  from assms t e2 show ?thesis
    by (cases rt) (auto simp: send_email_def Let_def)
qed

lemma submitted_append [simp]: "submitted (xs @ ys) = submitted xs @ submitted ys"
  by (induction xs rule: submitted.induct) simp_all

lemma submitted_send_events: "\<forall>ev \<in> set evs. send_event ev \<Longrightarrow> submitted evs = []"
proof (induction evs)
  case Nil
  then show ?case by simp
next
  case (Cons ev evs)
  then have "send_event ev" "submitted evs = []" by simp_all
  then show ?case by (cases ev) simp_all
qed

lemma submitted_map_Submit [simp]: "submitted (map Submit rs) = rs"
  by (induction rs) simp_all

text \<open>Whatever the schedule, the completed futures are the submitted ones, each once.\<close>

lemma mset_as_completed [simp]: "mset (as_completed sched xs) = mset xs"
proof (induction sched xs rule: as_completed.induct)
  case (1 sched xs)
  show ?case
  proof (cases "xs = []")
    case True
    then show ?thesis by (subst as_completed.simps) simp
  next
    case ne: False
    show ?thesis
    proof (cases sched)
      case Nil
      with ne show ?thesis by (subst as_completed.simps) simp
    next
      case (Cons k ks)
      let ?i = "k mod length xs"
      from ne have lt: "?i < length xs" by simp
      from "1.IH" [OF ne Cons refl]
      have ih: "mset (as_completed ks (take ?i xs @ drop (Suc ?i) xs))
              = mset (take ?i xs @ drop (Suc ?i) xs)" .
      have "xs = take ?i xs @ xs ! ?i # drop (Suc ?i) xs"
        using lt by (rule id_take_nth_drop)
      then have "mset xs = mset (take ?i xs @ xs ! ?i # drop (Suc ?i) xs)" by simp
      then have m: "mset xs = add_mset (xs ! ?i) (mset (take ?i xs @ drop (Suc ?i) xs))"
        by simp
      from ne Cons have "as_completed sched xs
          = xs ! ?i # as_completed ks (take ?i xs @ drop (Suc ?i) xs)"
        by (subst as_completed.simps) (simp add: Let_def)
      with ih m show ?thesis by simp
    qed
  qed
qed

lemma length_as_completed [simp]: "length (as_completed sched xs) = length xs"
  using mset_as_completed [of sched xs] by (rule mset_eq_length)

text \<open>The loop over the completed futures counts each of them once.\<close>

lemma collect_step:
  assumes "collect E cfg subject template_name context priority attachments recipient (res, w)
             = (res1, w1)"
  shows "successful_sends res1 + failed_sends res1 = successful_sends res + failed_sends res + 1
       \<and> total_recipients res1 = total_recipients res
       \<and> valid_recipients res1 = valid_recipients res
       \<and> length (failed_recipients res1) - failed_sends res1
           = length (failed_recipients res) - failed_sends res
       \<and> (failed_sends res = length (failed_recipients res)
            \<longrightarrow> failed_sends res1 = length (failed_recipients res1))
       \<and> (\<exists>evs. trace w1 = trace w @ evs \<and> submitted evs = [])"
proof -
  obtain r w2 where s: "send_email E cfg subject template_name context (Inr [recipient])
      priority attachments default_async_send w = (r, w2)"
    by (cases "send_email E cfg subject template_name context (Inr [recipient])
      priority attachments default_async_send w") auto
  from send_email_events [OF s] obtain evs where
    e: "trace w2 = trace w @ evs" "\<forall>ev \<in> set evs. send_event ev" by blast
  then have "submitted evs = []" by (simp add: submitted_send_events)
  with assms s e(1) show ?thesis
    by (cases r) (auto simp: collect_def split: if_splits)
qed

lemma collect_counts:
  assumes "fold (collect E cfg subject template_name context priority attachments) rs (res, w)
             = (res1, w1)"
    and "failed_sends res = length (failed_recipients res)"
  shows "successful_sends res1 + failed_sends res1
           = successful_sends res + failed_sends res + length rs
       \<and> total_recipients res1 = total_recipients res
       \<and> valid_recipients res1 = valid_recipients res
       \<and> failed_sends res1 = length (failed_recipients res1)
       \<and> (\<exists>evs. trace w1 = trace w @ evs \<and> submitted evs = [])"
  using assms
proof (induction rs arbitrary: res w)
  case Nil
  then show ?case by simp
next
  case (Cons recipient rs)
  obtain res0 w0 where step: "collect E cfg subject template_name context priority attachments
      recipient (res, w) = (res0, w0)"
    by (cases "collect E cfg subject template_name context priority attachments
      recipient (res, w)") auto
  note one = collect_step [OF step]
  from Cons.prems(1) step
  have rest: "fold (collect E cfg subject template_name context priority attachments) rs (res0, w0)
          = (res1, w1)"
    by simp
  from one Cons.prems(2) have f0: "failed_sends res0 = length (failed_recipients res0)"
    by simp
  from Cons.IH [OF rest f0] one show ?case
    by auto
qed

lemma trace_fold_submit:
  "trace (fold (\<lambda>recipient. emit (Submit recipient)) rs w) = trace w @ map Submit rs"
  by (induction rs arbitrary: w) simp_all

lemma validate_mixed:
  "filter validate_email mixed_recipients = [''a@x.io'', ''b@x.io'']"
  by (simp add: mixed_recipients_def validate_email_char re_match_def email_regex_eval)

text \<open>
  Claim C3: for every recipient list, with a pool of at least one worker,
  \<open>parallel_email_send\<close> returns an aggregate, whatever the order in which the tasks
  finish. In it \<open>valid_recipients\<close> is the number of addresses the validator accepts,
  \<open>total_recipients\<close> is the length of the list, and the successful and the failed sends
  add up to \<open>valid_recipients\<close>. The tasks submitted are those of the accepted addresses, in
  the order of the list; no task is submitted for an address the validator rejects.
\<close>

theorem parallel_email_send_counts:
  assumes "0 < THREAD_POOL_SIZE cfg"
  shows "\<exists>res w1. parallel_email_send E cfg sched subject template_name context recipient_list
                    priority attachments w = (Inr res, w1)
           \<and> valid_recipients res = length (filter validate_email recipient_list)
           \<and> total_recipients res = length recipient_list
           \<and> successful_sends res + failed_sends res = valid_recipients res
           \<and> failed_sends res = length (failed_recipients res)
           \<and> submitted (new_events w w1) = filter validate_email recipient_list
           \<and> (\<forall>r \<in> set recipient_list.
                 \<not> validate_email r \<longrightarrow> r \<notin> set (submitted (new_events w w1)))"
proof -
  let ?valid = "filter validate_email recipient_list"
  let ?res = "\<lparr>total_recipients = length recipient_list,
                 valid_recipients = length ?valid,
                 successful_sends = 0, failed_sends = 0, failed_recipients = []\<rparr>"
  let ?w0 = "fold (\<lambda>recipient. emit (Submit recipient)) ?valid w"
  let ?done = "as_completed sched ?valid"
  obtain res1 w1 where f: "fold (collect E cfg subject template_name context priority attachments)
      ?done (?res, ?w0) = (res1, w1)"
    by (cases "fold (collect E cfg subject template_name context priority attachments)
      ?done (?res, ?w0)") auto
  have z: "failed_sends ?res = length (failed_recipients ?res)" by simp
  from collect_counts [OF f z] obtain evs where
    c: "successful_sends res1 + failed_sends res1 = length ?valid"
       "total_recipients res1 = length recipient_list"
       "valid_recipients res1 = length ?valid"
       "failed_sends res1 = length (failed_recipients res1)"
       "trace w1 = trace ?w0 @ evs" "submitted evs = []"
    by auto
  from c(5) have "trace w1 = trace w @ (map Submit ?valid @ evs)"
    by (simp add: trace_fold_submit)
  then have "new_events w w1 = map Submit ?valid @ evs"
    by (rule new_events_append)
  with c(6) have s: "submitted (new_events w w1) = ?valid"
    by simp
  have p: "parallel_email_send E cfg sched subject template_name context recipient_list
             priority attachments w = (Inr res1, w1)"
    using assms f by (simp add: parallel_email_send_def Let_def)
  from p c s show ?thesis by auto
qed

theorem parallel_email_send_counts_witness:
  "0 < THREAD_POOL_SIZE demo_config
   \<and> ''nobody'' \<in> set mixed_recipients \<and> \<not> validate_email ''nobody''
   \<and> (\<exists>res w1. parallel_email_send transport_ok demo_config [1] ''Notice'' ''welcome_email'' []
                   mixed_recipients ''medium'' None init_world = (Inr res, w1)
           \<and> valid_recipients res = 2
           \<and> total_recipients res = 3
           \<and> successful_sends res + failed_sends res = valid_recipients res
           \<and> failed_sends res = length (failed_recipients res)
           \<and> submitted (new_events init_world w1) = [''a@x.io'', ''b@x.io'']
           \<and> ''nobody'' \<notin> set (submitted (new_events init_world w1)))"
proof -
  have h: "0 < THREAD_POOL_SIZE demo_config"
    by (simp add: demo_config_def)
  have m: "''nobody'' \<in> set mixed_recipients"
    by (simp add: mixed_recipients_def)
  have n: "\<not> validate_email ''nobody''"
    by (simp add: validate_email_char re_match_def email_regex_eval)
  have l: "length mixed_recipients = 3"
    by (simp add: mixed_recipients_def)
  from parallel_email_send_counts [OF h, of transport_ok "[1]" "''Notice''" "''welcome_email''"
      "[]" mixed_recipients "''medium''" None init_world]
  obtain res w1 where
    r: "parallel_email_send transport_ok demo_config [1] ''Notice'' ''welcome_email'' []
          mixed_recipients ''medium'' None init_world = (Inr res, w1)"
       "valid_recipients res = length (filter validate_email mixed_recipients)"
       "total_recipients res = length mixed_recipients"
       "successful_sends res + failed_sends res = valid_recipients res"
       "failed_sends res = length (failed_recipients res)"
       "submitted (new_events init_world w1) = filter validate_email mixed_recipients"
       "\<forall>r \<in> set mixed_recipients.
          \<not> validate_email r \<longrightarrow> r \<notin> set (submitted (new_events init_world w1))"
    by blast
  from r(7) m n have "''nobody'' \<notin> set (submitted (new_events init_world w1))"
    by blast
  with h m n r l show ?thesis
    by (simp add: validate_mixed)
qed

section \<open>Batch send: results\<close>

text \<open>The batches of a list: its consecutive parts, all of the size of the step but the last.\<close>

lemma batches_unfold:
  "0 < step \<Longrightarrow> i < length xs \<Longrightarrow>
   batches step i xs = take step (drop i xs) # batches step (i + step) xs"
  by (subst batches.simps) simp

lemma batches_done: "\<not> (0 < step \<and> i < length xs) \<Longrightarrow> batches step i xs = []"
  by (subst batches.simps) auto




text \<open>One batch: the builder logs no batch failure, and the send logs one when it raises.\<close>

lemma batch_failures_append [simp]:
  "batch_failures (xs @ ys) = batch_failures xs @ batch_failures ys"
  by (induction xs rule: batch_failures.induct) simp_all

lemma batch_failures_builder:
  "\<forall>ev \<in> set evs. builder_event ev \<Longrightarrow> batch_failures evs = []"
proof (induction evs)
  case Nil
  then show ?case by simp
next
  case (Cons ev evs)
  then have "builder_event ev" "batch_failures evs = []" by simp_all
  then show ?case by (cases ev rule: builder_event.cases) simp_all
qed

lemma prepare_all_events:
  "prepare_all E cfg subject template_name context batch w = (r, w1) \<Longrightarrow>
   \<exists>evs. trace w1 = trace w @ evs \<and> (\<forall>ev \<in> set evs. builder_event ev)"
proof (induction batch arbitrary: w r w1)
  case Nil
  then show ?case by simp
next
  case (Cons recipient rest)
  obtain rm w2 where p: "prepare_email_message E cfg subject template_name context
      (Inr [recipient]) default_priority default_attachments w = (rm, w2)"
    by (cases "prepare_email_message E cfg subject template_name context
      (Inr [recipient]) default_priority default_attachments w") auto
  from prepare_email_message_events [OF p] obtain evs2 where
    e2: "trace w2 = trace w @ evs2" "\<forall>ev \<in> set evs2. builder_event ev" by blast
  show ?case
  proof (cases rm)
    case (Inl e)
    with Cons.prems p e2 show ?thesis by auto
  next
    case (Inr m)
    obtain rr w3 where q: "prepare_all E cfg subject template_name context rest w2 = (rr, w3)"
      by (cases "prepare_all E cfg subject template_name context rest w2") auto
    from Cons.IH [OF q] obtain evs3 where
      e3: "trace w3 = trace w2 @ evs3" "\<forall>ev \<in> set evs3. builder_event ev" by blast
    from Cons.prems p Inr q have "w1 = w3"
      by (auto split: sum.splits)
    with e2 e3 show ?thesis by auto
  qed
qed

lemma with_connection_send_events:
  "with_connection_send E messages w = (r, w1) \<Longrightarrow>
   \<exists>evs. trace w1 = trace w @ evs \<and> batch_failures evs = []"
  by (auto simp: with_connection_send_def connection_def Let_def
           split: option.splits sum.splits prod.splits)

lemma send_batch_step:
  assumes "send_batch E cfg template_name context subject batch acc w = (Inr acc1, w1)"
  shows "\<exists>outcome evs. acc1 = account batch outcome acc \<and> trace w1 = trace w @ evs
           \<and> batch_failures evs = failed_outcomes [(batch, outcome)]"
proof -
  obtain rp w2 where p: "prepare_all E cfg subject template_name context batch w = (rp, w2)"
    by (cases "prepare_all E cfg subject template_name context batch w") auto
  from prepare_all_events [OF p] obtain evs2 where
    e2: "trace w2 = trace w @ evs2" "batch_failures evs2 = []"
    by (auto simp: batch_failures_builder)
  from assms p obtain messages where m: "rp = Inr messages"
    by (cases rp) (auto simp: send_batch_def)
  obtain o3 w3 where s: "with_connection_send E messages w2 = (o3, w3)"
    by (cases "with_connection_send E messages w2") auto
  from with_connection_send_events [OF s] obtain evs3 where
    e3: "trace w3 = trace w2 @ evs3" "batch_failures evs3 = []" by blast
  show ?thesis
  proof (cases o3)
    case None
    with assms p m s have "acc1 = account batch None acc" "w1 = w3"
      by (auto simp: send_batch_def)
    with e2 e3 show ?thesis
      by (intro exI [of _ None]) (simp add: failed_outcomes_def)
  next
    case (Some e)
    with assms p m s have "acc1 = account batch (Some e) acc"
      "w1 = emit (LogError (BatchFailed batch e)) w3"
      by (auto simp: send_batch_def)
    with e2 e3 show ?thesis
      by (intro exI [of _ "Some e"]) (simp add: failed_outcomes_def)
  qed
qed

text \<open>The loop: its result is the tally of the batches with the outcomes of their sends.\<close>

lemma batch_loop_unfold:
  "0 < step \<Longrightarrow> i < length rl \<Longrightarrow>
   batch_loop body rl step i acc w =
     (case body (take step (drop i rl)) acc w of
        (Inl e, w1) \<Rightarrow> (Inl e, w1)
      | (Inr acc1, w1) \<Rightarrow> batch_loop body rl step (i + step) acc1 w1)"
  by (subst batch_loop.simps) simp

lemma batch_loop_done:
  "\<not> (0 < step \<and> i < length rl) \<Longrightarrow> batch_loop body rl step i acc w = (Inr acc, w)"
  by (subst batch_loop.simps) auto

lemma batch_loop_tally:
  assumes "\<And>batch acc w acc1 w1. body batch acc w = (Inr acc1, w1) \<Longrightarrow>
             \<exists>outcome evs. acc1 = account batch outcome acc \<and> trace w1 = trace w @ evs
               \<and> batch_failures evs = failed_outcomes [(batch, outcome)]"
    and "batch_loop body rl step i acc w = (Inr acc', w')"
  shows "\<exists>outcomes evs. length outcomes = length (batches step i rl)
           \<and> acc' = tally (zip (batches step i rl) outcomes) acc
           \<and> trace w' = trace w @ evs
           \<and> batch_failures evs = failed_outcomes (zip (batches step i rl) outcomes)"
  using assms(2)
proof (induction "length rl - i" arbitrary: i acc w rule: less_induct)
  case less
  note run = less.prems
  show ?case
  proof (cases "0 < step \<and> i < length rl")
    case False
    with run show ?thesis
      by (simp add: batch_loop_done batches_done tally_def failed_outcomes_def)
  next
    case True
    let ?batch = "take step (drop i rl)"
    obtain r1 w1 where b: "body ?batch acc w = (r1, w1)"
      by (cases "body ?batch acc w") auto
    from run True b obtain acc1 where r1: "r1 = Inr acc1"
      by (cases r1) (auto simp: batch_loop_unfold)
    with run True b have rest: "batch_loop body rl step (i + step) acc1 w1 = (Inr acc', w')"
      by (simp add: batch_loop_unfold)
    from b r1 have "body ?batch acc w = (Inr acc1, w1)" by simp
    from assms(1) [OF this] obtain outcome evs1 where
      s: "acc1 = account ?batch outcome acc" "trace w1 = trace w @ evs1"
         "batch_failures evs1 = failed_outcomes [(?batch, outcome)]"
      by blast
    from True have "length rl - (i + step) < length rl - i" by arith
    from less.hyps [OF this rest] obtain outcomes evs2 where
      ih: "length outcomes = length (batches step (i + step) rl)"
          "acc' = tally (zip (batches step (i + step) rl) outcomes) acc1"
          "trace w' = trace w1 @ evs2"
          "batch_failures evs2 = failed_outcomes (zip (batches step (i + step) rl) outcomes)"
      by blast
    have u: "batches step i rl = ?batch # batches step (i + step) rl"
      using True by (simp add: batches_unfold)
    show ?thesis
    proof (intro exI conjI)
      show "length (outcome # outcomes) = length (batches step i rl)"
        using ih(1) u by simp
      show "acc' = tally (zip (batches step i rl) (outcome # outcomes)) acc"
        using ih(2) s(1) u by (simp add: tally_def)
      show "trace w' = trace w @ (evs1 @ evs2)"
        using ih(3) s(2) by simp
      show "batch_failures (evs1 @ evs2)
              = failed_outcomes (zip (batches step i rl) (outcome # outcomes))"
        using ih(4) s(3) u by (simp add: failed_outcomes_def)
    qed
  qed
qed

lemma tally_char:
  "tally bos (sc, fc, failed) =
     (sc + length (concat (map fst (filter (\<lambda>bo. snd bo = None) bos))),
      fc + length (concat (map fst (failed_outcomes bos))),
      failed @ concat (map (\<lambda>(batch, e). map (failed_entry e) batch) (failed_outcomes bos)))"
proof (induction bos arbitrary: sc fc failed)
  case Nil
  then show ?case by (simp add: tally_def failed_outcomes_def)
next
  case (Cons bo bos)
  obtain batch outcome where bo: "bo = (batch, outcome)" by (cases bo) auto
  have "tally (bo # bos) (sc, fc, failed) = tally bos (account batch outcome (sc, fc, failed))"
    by (simp add: tally_def bo)
  then show ?case
    using Cons.IH
    by (cases outcome) (simp_all add: bo account_def failed_outcomes_def)
qed



lemma send_batch_emails_tally:
  assumes "0 < BATCH_SIZE cfg"
    and "send_batch_emails E cfg template_name context recipient_list subject w
           = (Inr (success_count, failure_count, failed), w1)"
  shows "\<exists>outcomes.
           length outcomes = length (batches (nat (BATCH_SIZE cfg)) 0 recipient_list)
           \<and> (success_count, failure_count, failed)
               = tally (zip (batches (nat (BATCH_SIZE cfg)) 0 recipient_list) outcomes) (0, 0, [])
           \<and> batch_failures (new_events w w1)
               = failed_outcomes (zip (batches (nat (BATCH_SIZE cfg)) 0 recipient_list) outcomes)"
proof -
  let ?B = "nat (BATCH_SIZE cfg)"
  let ?bs = "batches ?B 0 recipient_list"
  from assms have run: "batch_loop (send_batch E cfg template_name context subject)
      recipient_list ?B 0 (0, 0, []) w = (Inr (success_count, failure_count, failed), w1)"
    by (simp add: send_batch_emails_def)
  have step: "\<exists>outcome evs. acc1 = account batch outcome acc \<and> trace v1 = trace v @ evs
               \<and> batch_failures evs = failed_outcomes [(batch, outcome)]"
    if "send_batch E cfg template_name context subject batch acc v = (Inr acc1, v1)"
    for batch acc v acc1 v1
    using that by (rule send_batch_step)
  from batch_loop_tally [where body = "send_batch E cfg template_name context subject", OF step run]
  obtain outcomes evs where
    o: "length outcomes = length ?bs"
       "(success_count, failure_count, failed) = tally (zip ?bs outcomes) (0, 0, [])"
       "trace w1 = trace w @ evs"
       "batch_failures evs = failed_outcomes (zip ?bs outcomes)"
    by blast
  from o(3) have "new_events w w1 = evs" by (rule new_events_append)
  with o show ?thesis by blast
qed

lemma failed_entry_only: "only_recipient_and_error (failed_entry e recipient)"
  by (simp add: only_recipient_and_error_def failed_entry_def)

lemma send_batch_emails_records:
  assumes "send_batch_emails E cfg template_name context recipient_list subject w
           = (Inr (success_count, failure_count, failed), w1)"
  shows "\<forall>r \<in> set failed. only_recipient_and_error r"
proof (cases "0 < BATCH_SIZE cfg")
  case True
  from send_batch_emails_tally [OF True assms] obtain outcomes where
    "(success_count, failure_count, failed)
       = tally (zip (batches (nat (BATCH_SIZE cfg)) 0 recipient_list) outcomes) (0, 0, [])"
    by blast
  then have "failed = concat (map (\<lambda>(batch, e). map (failed_entry e) batch)
      (failed_outcomes (zip (batches (nat (BATCH_SIZE cfg)) 0 recipient_list) outcomes)))"
    by (simp add: tally_char)
  then show ?thesis by (auto simp: failed_entry_only)
next
  case False
  with assms have "failed = []"
    by (auto simp: send_batch_emails_def split: if_splits)
  then show ?thesis by simp
qed

text \<open>
  The messages of a batch are built outside the \<^verbatim>\<open>try\<close>, so an exception of the builder
  leaves \<open>send_batch_emails\<close>. When every template renders and the connection can be
  established, the function returns its three results.
\<close>

lemma prepare_email_message_returns:
  assumes "\<forall>h p c. \<exists>html. render_to_string E h p c = Inr html"
    and "\<forall>h. \<exists>c. get_connection E h = Inr c"
  shows "\<exists>m w1. prepare_email_message E cfg subject template_name context recipient_list
                  priority None w = (Inr m, w1)"
proof -
  let ?p = "''emails/'' @ template_name @ ''.html''"
  let ?w1 = "emit (Render ?p) w"
  from assms(1) obtain html where
    r: "render_to_string E (trace w) ?p (platform_context cfg context) = Inr html"
    by blast
  have "\<exists>c w2. connection E ?w1 = (Inr c, w2)"
  proof (cases "conn ?w1")
    case None
    from assms(2) obtain c where "get_connection E (trace ?w1) = Inr c" by blast
    with None show ?thesis by (simp add: connection_fresh_ok)
  next
    case (Some c)
    then show ?thesis by (simp add: connection_cached)
  qed
  then obtain c w2 where c: "connection E ?w1 = (Inr c, w2)" by blast
  from r c show ?thesis
    by (simp add: prepare_email_message_def platform_context_def Let_def)
qed

lemma prepare_all_returns:
  assumes "\<forall>h p c. \<exists>html. render_to_string E h p c = Inr html"
    and "\<forall>h. \<exists>c. get_connection E h = Inr c"
  shows "\<exists>ms w1. prepare_all E cfg subject template_name context batch w = (Inr ms, w1)"
proof (induction batch arbitrary: w)
  case Nil
  show ?case by simp
next
  case (Cons recipient rest)
  from prepare_email_message_returns [OF assms] obtain m w2 where
    "prepare_email_message E cfg subject template_name context (Inr [recipient])
       default_priority default_attachments w = (Inr m, w2)"
    unfolding default_attachments_def by blast
  moreover from Cons.IH obtain ms w3 where
    "prepare_all E cfg subject template_name context rest w2 = (Inr ms, w3)" by blast
  ultimately show ?case by simp
qed

lemma send_batch_returns:
  assumes "\<forall>h p c. \<exists>html. render_to_string E h p c = Inr html"
    and "\<forall>h. \<exists>c. get_connection E h = Inr c"
  shows "\<exists>acc1 w1. send_batch E cfg template_name context subject batch acc w = (Inr acc1, w1)"
proof -
  from prepare_all_returns [OF assms] obtain ms w2 where
    p: "prepare_all E cfg subject template_name context batch w = (Inr ms, w2)" by blast
  obtain o3 w3 where s: "with_connection_send E ms w2 = (o3, w3)"
    by (cases "with_connection_send E ms w2") auto
  from p s show ?thesis
    by (cases o3) (simp_all add: send_batch_def del: split_paired_Ex)
qed

lemma batch_loop_returns:
  assumes "\<And>batch acc w. \<exists>acc1 w1. body batch acc w = (Inr acc1, w1)"
  shows "\<exists>acc1 w1. batch_loop body rl step i acc w = (Inr acc1, w1)"
proof (induction "length rl - i" arbitrary: i acc w rule: less_induct)
  case less
  show ?case
  proof (cases "0 < step \<and> i < length rl")
    case False
    then show ?thesis by (simp add: batch_loop_done del: split_paired_Ex)
  next
    case True
    from assms obtain acc1 w1 where b: "body (take step (drop i rl)) acc w = (Inr acc1, w1)"
      by blast
    from True have "length rl - (i + step) < length rl - i" by arith
    from less.hyps [OF this] obtain acc2 w2 where
      "batch_loop body rl step (i + step) acc1 w1 = (Inr acc2, w2)" by blast
    with True b show ?thesis by (simp add: batch_loop_unfold del: split_paired_Ex)
  qed
qed

lemma send_batch_emails_returns:
  assumes "0 < BATCH_SIZE cfg"
    and "\<forall>h p c. \<exists>html. render_to_string E h p c = Inr html"
    and "\<forall>h. \<exists>c. get_connection E h = Inr c"
  shows "\<exists>acc w1. send_batch_emails E cfg template_name context recipient_list subject w
           = (Inr acc, w1)"
proof -
  have "\<exists>acc1 w1. batch_loop (send_batch E cfg template_name context subject) recipient_list
          (nat (BATCH_SIZE cfg)) 0 (0, 0, []) w = (Inr acc1, w1)"
    by (rule batch_loop_returns) (rule send_batch_returns [OF assms(2,3)])
  with assms(1) show ?thesis by (simp add: send_batch_emails_def)
qed





section \<open>Retry loop: results\<close>

lemma attempts_3: "[1 ..< nat (3 + 1)] = [1, 2, 3]"
  by code_simp

text \<open>
  Claim C5: three pending records, three attempts, every send raising. The three records
  are still in the list at the end, as the claim says. The claim says that there are two
  delays, one between two rounds; the code sleeps at the end of every round that leaves a
  record pending, also of the last round, so there are three.
\<close>

theorem retry_failed_emails_sleeps_after_last_round:
  "fst (fst (retry_failed_emails transport_down demo_config three_pending 3 5 init_world)) = None
   \<and> map fr_recipient
        (snd (fst (retry_failed_emails transport_down demo_config three_pending 3 5 init_world)))
       = [Some ''a@x.io'', Some ''b@x.io'', Some ''c@x.io'']
   \<and> delays (new_events init_world
        (snd (retry_failed_emails transport_down demo_config three_pending 3 5 init_world))) = 3"
  unfolding retry_failed_emails_def attempts_3
  by (simp add: retry_one_def retry_try_def lookup_def
        platform_context_def prepare_email_message_def connection_def as_list_def emit_def
        dict_update_def default_priority_def default_attachments_def three_pending_def
        full_record_def delays_def new_events_def demo_defs Let_def)

text \<open>
  Records without the key \<open>subject\<close>: the lookup raises \<open>KeyError\<close> inside the \<^verbatim>\<open>try\<close>,
  before the builder is called.
\<close>

lemma retry_one_missing_subject:
  "fr_subject r = None \<Longrightarrow> fr_recipient r = Some rcp \<Longrightarrow>
   retry_one E cfg attempt retries r pending w
     = ((None, pending), emit (LogError (RetryFailed attempt retries rcp (KeyError ''subject''))) w)"
  by (simp add: retry_one_def retry_try_def lookup_def)

lemma retry_round_missing_subject:
  assumes "\<forall>r \<in> set snapshot. fr_subject r = None \<and> fr_recipient r \<noteq> None"
  shows "retry_round E cfg attempt retries snapshot pending w
     = ((None, pending),
        w\<lparr>trace := trace w @
             map (\<lambda>r. LogError (RetryFailed attempt retries (the (fr_recipient r))
                                  (KeyError ''subject''))) snapshot\<rparr>)"
  using assms
proof (induction snapshot arbitrary: w)
  case Nil
  show ?case by simp
next
  case (Cons r rest)
  from Cons.prems obtain rcp where r: "fr_subject r = None" "fr_recipient r = Some rcp"
    by auto
  from Cons.prems have "\<forall>r \<in> set rest. fr_subject r = None \<and> fr_recipient r \<noteq> None"
    by simp
  from Cons.IH [OF this] retry_one_missing_subject [OF r] r(2)
  show ?case by (simp add: emit_def)
qed

lemma retry_rounds_missing_subject:
  assumes "\<forall>r \<in> set pending. fr_subject r = None \<and> fr_recipient r \<noteq> None"
    and "0 \<le> delay"
  shows "retry_rounds E cfg retries delay attempts pending w
     = ((None, pending),
        w\<lparr>trace := trace w @
             concat (map (missing_subject_round retries delay pending) attempts)\<rparr>)"
proof (induction attempts arbitrary: w)
  case Nil
  show ?case by simp
next
  case (Cons attempt later)
  show ?case
  proof (cases "pending = []")
    case True
    with Cons.IH show ?thesis by (simp add: missing_subject_round_def)
  next
    case False
    with assms(2) Cons.IH show ?thesis
      by (simp add: retry_round_missing_subject [OF assms(1)] missing_subject_round_def emit_def)
  qed
qed

lemma retry_rounds_missing_subject_any_delay:
  assumes "\<forall>r \<in> set pending. fr_subject r = None \<and> fr_recipient r \<noteq> None"
  shows "\<exists>r w3 evs. retry_rounds E cfg retries delay attempts pending w = ((r, pending), w3)
           \<and> trace w3 = trace w @ evs
           \<and> (\<forall>ev \<in> set evs. \<not> is_build ev \<and> \<not> is_transport ev)"
proof (induction attempts arbitrary: w)
  case Nil
  show ?case by simp
next
  case (Cons attempt later)
  let ?logs = "map (\<lambda>r. LogError (RetryFailed attempt retries (the (fr_recipient r))
                                  (KeyError ''subject''))) pending"
  let ?w1 = "w\<lparr>trace := trace w @ ?logs\<rparr>"
  have round: "retry_round E cfg attempt retries pending pending w = ((None, pending), ?w1)"
    by (rule retry_round_missing_subject [OF assms])
  have logs: "\<forall>ev \<in> set ?logs. \<not> is_build ev \<and> \<not> is_transport ev"
    by auto
  show ?case
  proof (cases "pending = []")
    case True
    from Cons.IH [of ?w1] obtain r w3 evs where
      "retry_rounds E cfg retries delay later pending ?w1 = ((r, pending), w3)"
      "trace w3 = trace ?w1 @ evs" "\<forall>ev \<in> set evs. \<not> is_build ev \<and> \<not> is_transport ev"
      by blast
    with round True logs show ?thesis by simp
  next
    case ne: False
    show ?thesis
    proof (cases "delay < 0")
      case True
      with round ne logs show ?thesis by simp
    next
      case False
      from Cons.IH [of "emit (Sleep delay) ?w1"] obtain r w3 evs where
        i: "retry_rounds E cfg retries delay later pending (emit (Sleep delay) ?w1)
              = ((r, pending), w3)"
           "trace w3 = trace (emit (Sleep delay) ?w1) @ evs"
           "\<forall>ev \<in> set evs. \<not> is_build ev \<and> \<not> is_transport ev"
        by blast
      from i(2) have "trace w3 = trace w @ (?logs @ Sleep delay # evs)" by simp
      moreover from logs i(3)
      have "\<forall>ev \<in> set (?logs @ Sleep delay # evs). \<not> is_build ev \<and> \<not> is_transport ev"
        by auto
      ultimately show ?thesis
        using round ne False i(1) by (intro exI [of _ r] exI [of _ w3]) auto
    qed
  qed
qed

lemma transport_down_batch_run:
  "\<exists>w1. send_batch_emails transport_down demo_config ''welcome_email'' [] three_recipients
          ''Notice'' init_world
        = (Inr (0, 3, map (failed_entry (External ''SMTP Connection Error'')) three_recipients),
           w1)"
  by (simp add: send_batch_emails_def batch_loop.simps send_batch_def with_connection_send_def
        account_def prepare_email_message_def connection_def as_list_def emit_def
        dict_update_def default_priority_def default_attachments_def three_recipients_def
        transport_down_def demo_defs Let_def)

text \<open>
  Claim C10: the failed records that \<open>send_batch_emails\<close> returns have the keys
  \<open>recipient\<close> and \<open>error\<close> and no other. Given to \<open>retry_failed_emails\<close>, on any service
  and with any number of retries, the list comes back as it was: no message is built and
  the transport is never called. With a delay that is not negative the loop ends normally,
  and all it does in a round is to log one \<open>KeyError\<close> about \<open>subject\<close> for each record as a
  failed retry, and to sleep if there is a record.
\<close>

theorem retry_of_batch_failures_changes_nothing:
  assumes "send_batch_emails E cfg template_name context recipient_list subject w
           = (Inr (success_count, failure_count, failed), w1)"
  shows "(\<forall>r \<in> set failed. only_recipient_and_error r)
       \<and> (\<exists>r w3. retry_failed_emails E2 cfg2 failed retries delay w2 = ((r, failed), w3)
             \<and> (\<forall>ev \<in> set (new_events w2 w3). \<not> is_build ev \<and> \<not> is_transport ev)
             \<and> (0 \<le> delay \<longrightarrow>
                   r = None
                   \<and> new_events w2 w3
                       = concat (map (missing_subject_round retries delay failed)
                                   [1 ..< nat (retries + 1)])))"
proof -
  have only: "\<forall>r \<in> set failed. only_recipient_and_error r"
    using assms by (rule send_batch_emails_records)
  then have ms: "\<forall>r \<in> set failed. fr_subject r = None \<and> fr_recipient r \<noteq> None"
    by (simp add: only_recipient_and_error_def)
  from retry_rounds_missing_subject_any_delay [OF ms, of E2 cfg2 retries delay
      "[1 ..< nat (retries + 1)]" w2]
  obtain r w3 evs where
    a: "retry_failed_emails E2 cfg2 failed retries delay w2 = ((r, failed), w3)"
       "trace w3 = trace w2 @ evs" "\<forall>ev \<in> set evs. \<not> is_build ev \<and> \<not> is_transport ev"
    by (auto simp: retry_failed_emails_def)
  from a(2) have n: "new_events w2 w3 = evs" by (rule new_events_append)
  have "r = None \<and> new_events w2 w3
          = concat (map (missing_subject_round retries delay failed) [1 ..< nat (retries + 1)])"
    if "0 \<le> delay"
    using retry_rounds_missing_subject [OF ms that, of E2 cfg2 retries
        "[1 ..< nat (retries + 1)]" w2] a(1)
    by (auto simp: retry_failed_emails_def new_events_def)
  with only a(1,3) n show ?thesis by blast
qed

theorem retry_of_batch_failures_changes_nothing_witness:
  "(\<exists>w1. send_batch_emails transport_down demo_config ''welcome_email'' [] three_recipients
          ''Notice'' init_world
        = (Inr (0, 3, map (failed_entry (External ''SMTP Connection Error'')) three_recipients),
           w1))
   \<and> (0::int) \<le> 5
   \<and> (\<exists>w3. (\<forall>r \<in> set (map (failed_entry (External ''SMTP Connection Error''))
                             three_recipients). only_recipient_and_error r)
         \<and> retry_failed_emails transport_ok demo_config
              (map (failed_entry (External ''SMTP Connection Error'')) three_recipients) 3 5
              init_world
              = ((None, map (failed_entry (External ''SMTP Connection Error'')) three_recipients),
                 w3)
         \<and> (\<forall>ev \<in> set (new_events init_world w3). \<not> is_build ev \<and> \<not> is_transport ev)
         \<and> new_events init_world w3
             = concat (map (missing_subject_round 3 5
                   (map (failed_entry (External ''SMTP Connection Error'')) three_recipients))
                 [1 ..< nat (3 + 1)]))"
proof -
  from transport_down_batch_run obtain w1 where
    run: "send_batch_emails transport_down demo_config ''welcome_email'' [] three_recipients
          ''Notice'' init_world
        = (Inr (0, 3, map (failed_entry (External ''SMTP Connection Error'')) three_recipients),
           w1)"
    by blast
  have d: "(0::int) \<le> 5" by simp
  show ?thesis
    using run d
      retry_of_batch_failures_changes_nothing [OF run, of transport_ok demo_config 3 5 init_world]
    by blast
qed

end
